theory Spec2Isabelle
  imports Complex_Main "HOL-Library.Multiset"
begin

section \<open>The freight-dispatch simulation of the Yunfeng dashboard\<close>

text \<open>
  The repository holds one function with decision logic, \<open>runSimulation\<close>, in two copies:
  \<^verbatim>\<open>src/index.tsx\<close> and \<^verbatim>\<open>src/src/components/YunfengDashboard.tsx\<close>. The two copies differ
  only in the map constants of the order generator; sorting, allocation and metrics are the
  same text. The function reads two numbers of the component state (\<open>numOrders\<close>,
  \<open>fleetSize\<close>), draws from \<open>Math.random\<close>, and stores an order list and a result object.

  Conventions of the embedding.
  \<^item> \<open>numOrders\<close> and \<open>fleetSize\<close> are integers (\<open>int\<close>), negative values included: the
    sliders that set them deliver integers, and the function itself checks nothing.
  \<^item> JavaScript numbers that hold counts are \<open>nat\<close>, the distance in km (a floor plus an
    integer) is \<open>int\<close>, and coordinates, costs and emissions are \<open>real\<close>: arithmetic is
    exact, rounding of IEEE doubles is not modelled.
  \<^item> \<open>Math.random\<close> is a sequence \<open>rnd :: nat \<Rightarrow> real\<close> of draws; the callback of order
    \<open>i\<close> makes the draws \<open>5 * i\<close>, \dots, \<open>5 * i + 4\<close>, in the order x, y, type, size,
    urgency.
  \<^item> The React state setters \<open>setOrders\<close> and \<open>setResult\<close> are the pair the model returns.
\<close>

subsection \<open>Data\<close>

datatype OrderType = DoorToDoor | Warehouse

datatype ContainerSize = GP20 | GP40

datatype Urgency = Normal | Urgent

datatype Status = Pending | Assigned | Outsourced

record Order =
  id_o :: string
  type_o :: OrderType
  size_o :: ContainerSize
  urgency :: Urgency
  distance :: int
  x_o :: real
  y_o :: real
  status :: Status

text \<open>One entry of \<open>scheduleLog\<close>; its fields \<open>method\<close> and \<open>distance\<close> are \<open>method_r\<close> and \<open>distance_r\<close> here.\<close>

record DispatchRecord =
  orderId :: string
  vehicleId :: string
  method_r :: string
  cost :: real
  distance_r :: int

record SimulationResult =
  schedule :: "DispatchRecord list"
  totalCost :: real
  ownedUsage :: nat
  outsourcedUsage :: nat
  totalKm :: int
  manualCostEst :: real
  savings :: real
  co2 :: real

text \<open>The only exception the function can raise: \<open>Array.from\<close> on a length above \<open>2^32 - 1\<close>.\<close>

datatype error = RangeError

subsection \<open>Constants\<close>

definition COST_OWNED_FIXED :: real where "COST_OWNED_FIXED = 300"

definition COST_OWNED_PER_KM :: real where "COST_OWNED_PER_KM = 13.5"

definition COST_3RD_PARTY_FIXED :: real where "COST_3RD_PARTY_FIXED = 2000"

definition COST_3RD_PARTY_PER_KM :: real where "COST_3RD_PARTY_PER_KM = 14.0"

definition CO2_PER_KM :: real where "CO2_PER_KM = 0.27"

text \<open>Map constants of \<^verbatim>\<open>src/index.tsx\<close>.\<close>

definition MAP_WIDTH :: real where "MAP_WIDTH = 800"

definition MAP_HEIGHT :: real where "MAP_HEIGHT = 500"

definition PORT_X :: real where "PORT_X = MAP_WIDTH * 0.8"

definition PORT_Y :: real where "PORT_Y = MAP_HEIGHT * 0.5"

text \<open>Map constants of \<^verbatim>\<open>src/src/components/YunfengDashboard.tsx\<close>.\<close>

definition MAP_WIDTH_dashboard :: real where "MAP_WIDTH_dashboard = 800"

definition MAP_HEIGHT_dashboard :: real where "MAP_HEIGHT_dashboard = 400"

definition PORT_X_dashboard :: real where "PORT_X_dashboard = MAP_WIDTH_dashboard * 0.85"

definition PORT_Y_dashboard :: real where "PORT_Y_dashboard = MAP_HEIGHT_dashboard * 0.5"

subsection \<open>Template literals: a number as decimal digits\<close>

definition digitChar :: "nat \<Rightarrow> char" where
  "digitChar d = char_of (48 + d)"

fun showNat :: "nat \<Rightarrow> string" where
  "showNat n = (if n < 10 then [digitChar n] else showNat (n div 10) @ [digitChar (n mod 10)])"

declare showNat.simps [simp del]

subsection \<open>Step 1: the order generator\<close>

text \<open>
  \<open>Array.from({ length: numOrders })\<close>: the length is clamped below at 0 (\<open>ToLength\<close>), and a
  length of \<open>2^32\<close> or more makes the array constructor throw. The result is the list of
  indices the callback of \<open>map\<close> is called on.
\<close>

definition arrayFromLength :: "int \<Rightarrow> error + nat list" where
  "arrayFromLength len =
     (if len > 2 ^ 32 - 1 then Inl RangeError else Inr [0 ..< nat len])"

definition newOrder :: "(nat \<Rightarrow> real) \<Rightarrow> nat \<Rightarrow> Order" where
  "newOrder rnd i =
     (let x = rnd (5 * i) * (MAP_WIDTH * 0.7) + 20;
          y = rnd (5 * i + 1) * (MAP_HEIGHT - 40) + 20;
          distPx = sqrt ((x - PORT_X) ^ 2 + (y - PORT_Y) ^ 2);
          distKm = \<lfloor>distPx * 0.5\<rfloor> + 50
      in \<lparr> id_o = ''ORD-'' @ showNat (1000 + i),
           type_o = (if rnd (5 * i + 2) > 0.4 then DoorToDoor else Warehouse),
           size_o = (if rnd (5 * i + 3) > 0.5 then GP40 else GP20),
           urgency = (if rnd (5 * i + 4) > 0.8 then Urgent else Normal),
           distance = distKm,
           x_o = x,
           y_o = y,
           status = Pending \<rparr>)"

definition newOrder_dashboard :: "(nat \<Rightarrow> real) \<Rightarrow> nat \<Rightarrow> Order" where
  "newOrder_dashboard rnd i =
     (let x = rnd (5 * i) * (MAP_WIDTH_dashboard * 0.7) + 40;
          y = rnd (5 * i + 1) * (MAP_HEIGHT_dashboard - 60) + 30;
          distPx = sqrt ((x - PORT_X_dashboard) ^ 2 + (y - PORT_Y_dashboard) ^ 2);
          distKm = \<lfloor>distPx * 0.4\<rfloor> + 40
      in \<lparr> id_o = ''ORD-'' @ showNat (1000 + i),
           type_o = (if rnd (5 * i + 2) > 0.4 then DoorToDoor else Warehouse),
           size_o = (if rnd (5 * i + 3) > 0.5 then GP40 else GP20),
           urgency = (if rnd (5 * i + 4) > 0.8 then Urgent else Normal),
           distance = distKm,
           x_o = x,
           y_o = y,
           status = Pending \<rparr>)"

definition generateOrders :: "int \<Rightarrow> (nat \<Rightarrow> real) \<Rightarrow> error + Order list" where
  "generateOrders numOrders rnd =
     (case arrayFromLength numOrders of
        Inl e \<Rightarrow> Inl e
      | Inr idx \<Rightarrow> Inr (map (newOrder rnd) idx))"

definition generateOrders_dashboard :: "int \<Rightarrow> (nat \<Rightarrow> real) \<Rightarrow> error + Order list" where
  "generateOrders_dashboard numOrders rnd =
     (case arrayFromLength numOrders of
        Inl e \<Rightarrow> Inl e
      | Inr idx \<Rightarrow> Inr (map (newOrder_dashboard rnd) idx))"

subsection \<open>Step 2: the priority sort\<close>

text \<open>The comparator handed to \<open>sort\<close>: negative puts \<open>a\<close> first, positive puts \<open>b\<close> first.\<close>

definition compareOrders :: "Order \<Rightarrow> Order \<Rightarrow> int" where
  "compareOrders a b =
     (if urgency a = Urgent \<and> urgency b \<noteq> Urgent then - 1
      else if urgency a \<noteq> Urgent \<and> urgency b = Urgent then 1
      else distance b - distance a)"

text \<open>
  \<open>Array.prototype.sort\<close> is stable (ECMAScript 2019 and later), and for a comparator that
  is a consistent ordering, as \<open>compareOrders\<close> is, its result is fixed by the language:
  the stable sorted permutation. Insertion from the right computes that permutation: an
  element goes in front of the first element it does not have to follow.
\<close>

fun insertBy :: "('a \<Rightarrow> 'a \<Rightarrow> int) \<Rightarrow> 'a \<Rightarrow> 'a list \<Rightarrow> 'a list" where
  "insertBy cmp a [] = [a]"
| "insertBy cmp a (b # bs) = (if cmp a b \<le> 0 then a # b # bs else b # insertBy cmp a bs)"

fun sortBy :: "('a \<Rightarrow> 'a \<Rightarrow> int) \<Rightarrow> 'a list \<Rightarrow> 'a list" where
  "sortBy cmp [] = []"
| "sortBy cmp (a # as) = insertBy cmp a (sortBy cmp as)"

definition sortOrders :: "Order list \<Rightarrow> Order list" where
  "sortOrders newOrders = sortBy compareOrders newOrders"

subsection \<open>Step 3: the allocation pass\<close>

text \<open>The local variables the callback of \<open>sortedOrders.map\<close> closes over.\<close>

record AllocState =
  currentCost :: real
  ownedCount :: nat
  outsourcedCount :: nat
  kmCount :: int
  availableTrucks :: int
  scheduleLog :: "DispatchRecord list"

definition initState :: "int \<Rightarrow> AllocState" where
  "initState fleetSize =
     \<lparr> currentCost = 0, ownedCount = 0, outsourcedCount = 0, kmCount = 0,
       availableTrucks = fleetSize, scheduleLog = [] \<rparr>"

text \<open>
  One call of the callback. The branch fixes the counters, the cost, the method, the
  vehicle label and the order's status; the code after the branch adds to the totals and
  pushes the log entry. The order object is changed in place and returned.
\<close>

definition visit :: "AllocState \<Rightarrow> Order \<Rightarrow> AllocState \<times> Order" where
  "visit st order =
     (let (st1, cost1, method1, assignedVehicle, order1) =
            (if availableTrucks st > 0 then
               (st\<lparr> availableTrucks := availableTrucks st - 1,
                    ownedCount := ownedCount st + 1 \<rparr>,
                COST_OWNED_FIXED + real_of_int (distance order) * COST_OWNED_PER_KM,
                ''Owned'',
                ''VEH-'' @ showNat (ownedCount st + 1),
                order\<lparr> status := Assigned \<rparr>)
             else
               (st\<lparr> outsourcedCount := outsourcedCount st + 1 \<rparr>,
                COST_3RD_PARTY_FIXED + real_of_int (distance order) * COST_3RD_PARTY_PER_KM,
                ''Outsourced'',
                ''3RD-PARTY'',
                order\<lparr> status := Outsourced \<rparr>));
          st2 = st1\<lparr> currentCost := currentCost st1 + cost1,
                     kmCount := kmCount st1 + distance order1,
                     scheduleLog := scheduleLog st1 @
                       [\<lparr> orderId = id_o order1, vehicleId = assignedVehicle,
                          method_r = method1, cost = cost1,
                          distance_r = distance order1 \<rparr>] \<rparr>
      in (st2, order1))"

fun allocate :: "AllocState \<Rightarrow> Order list \<Rightarrow> AllocState \<times> Order list" where
  "allocate st [] = (st, [])"
| "allocate st (order # rest) =
     (let (st1, order1) = visit st order;
          (st2, rest1) = allocate st1 rest
      in (st2, order1 # rest1))"

subsection \<open>Step 4: metrics, and the whole run\<close>

definition metrics :: "AllocState \<Rightarrow> SimulationResult" where
  "metrics st =
     (let manualEst = currentCost st * 1.153;
          savingVal = manualEst - currentCost st
      in \<lparr> schedule = scheduleLog st,
           totalCost = currentCost st,
           ownedUsage = ownedCount st,
           outsourcedUsage = outsourcedCount st,
           totalKm = kmCount st,
           manualCostEst = manualEst,
           savings = savingVal,
           co2 = real_of_int (kmCount st) * CO2_PER_KM \<rparr>)"

text \<open>Steps 2 to 4, the same text in both files, on the list step 1 made.\<close>

definition dispatch :: "Order list \<Rightarrow> int \<Rightarrow> Order list \<times> SimulationResult" where
  "dispatch newOrders fleetSize =
     (let sortedOrders = sortOrders newOrders;
          (st, simulatedOrders) = allocate (initState fleetSize) sortedOrders
      in (simulatedOrders, metrics st))"

definition runSimulation ::
  "int \<Rightarrow> int \<Rightarrow> (nat \<Rightarrow> real) \<Rightarrow> error + Order list \<times> SimulationResult" where
  "runSimulation numOrders fleetSize rnd =
     (case generateOrders numOrders rnd of
        Inl e \<Rightarrow> Inl e
      | Inr newOrders \<Rightarrow> Inr (dispatch newOrders fleetSize))"

definition runSimulation_dashboard ::
  "int \<Rightarrow> int \<Rightarrow> (nat \<Rightarrow> real) \<Rightarrow> error + Order list \<times> SimulationResult" where
  "runSimulation_dashboard numOrders fleetSize rnd =
     (case generateOrders_dashboard numOrders rnd of
        Inl e \<Rightarrow> Inl e
      | Inr newOrders \<Rightarrow> Inr (dispatch newOrders fleetSize))"

subsection \<open>Notions used in the statements\<close>

text \<open>
  The order the comparator describes: \<open>a\<close> may stand before \<open>b\<close> when \<open>a\<close> is not a
  normal order facing an urgent one and, at equal urgency, \<open>a\<close> is at least as far.
\<close>

definition precedes :: "Order \<Rightarrow> Order \<Rightarrow> bool" where
  "precedes a b \<longleftrightarrow>
     (urgency a = Urgent \<or> urgency b = Normal) \<and>
     (urgency a = urgency b \<longrightarrow> distance b \<le> distance a)"

text \<open>The two shapes of a log entry, as the two branches of the callback build them.\<close>

definition ownedRecord :: "nat \<Rightarrow> Order \<Rightarrow> DispatchRecord" where
  "ownedRecord k order =
     \<lparr> orderId = id_o order, vehicleId = ''VEH-'' @ showNat k, method_r = ''Owned'',
       cost = COST_OWNED_FIXED + real_of_int (distance order) * COST_OWNED_PER_KM,
       distance_r = distance order \<rparr>"

definition thirdPartyRecord :: "Order \<Rightarrow> DispatchRecord" where
  "thirdPartyRecord order =
     \<lparr> orderId = id_o order, vehicleId = ''3RD-PARTY'', method_r = ''Outsourced'',
       cost = COST_3RD_PARTY_FIXED + real_of_int (distance order) * COST_3RD_PARTY_PER_KM,
       distance_r = distance order \<rparr>"

text \<open>The entry the pass started in \<open>st\<close> writes for position \<open>i\<close> of its input.\<close>

definition recordAt :: "AllocState \<Rightarrow> Order list \<Rightarrow> nat \<Rightarrow> DispatchRecord" where
  "recordAt st xs i =
     (if int i < availableTrucks st then ownedRecord (ownedCount st + i + 1) (xs ! i)
      else thirdPartyRecord (xs ! i))"

text \<open>The closure variables as they are when the callback is about to visit position \<open>i\<close>.\<close>

definition stateBefore :: "int \<Rightarrow> Order list \<Rightarrow> nat \<Rightarrow> AllocState" where
  "stateBefore fleetSize sortedOrders i =
     fst (allocate (initState fleetSize) (take i sortedOrders))"

text \<open>
  A fixed sequence of draws for three orders: all on the port's latitude (second draw
  \<open>1/2\<close>), at 360, 220 and 290 km, the second one urgent.
\<close>

definition exampleDraws :: "nat \<Rightarrow> real" where
  "exampleDraws k =
     (if k < 15
      then [0, 1/2, 0, 0, 0,
            1/2, 1/2, 1/2, 6/10, 9/10,
            1/4, 1/2, 9/10, 9/10, 0] ! k
      else 0)"

definition exampleOrder0 :: Order where
  "exampleOrder0 =
     \<lparr> id_o = ''ORD-1000'', type_o = Warehouse, size_o = GP20, urgency = Normal,
       distance = 360, x_o = 20, y_o = 250, status = Pending \<rparr>"

definition exampleOrder1 :: Order where
  "exampleOrder1 =
     \<lparr> id_o = ''ORD-1001'', type_o = DoorToDoor, size_o = GP40, urgency = Urgent,
       distance = 220, x_o = 300, y_o = 250, status = Pending \<rparr>"

definition exampleOrder2 :: Order where
  "exampleOrder2 =
     \<lparr> id_o = ''ORD-1002'', type_o = DoorToDoor, size_o = GP40, urgency = Normal,
       distance = 290, x_o = 160, y_o = 250, status = Pending \<rparr>"

section \<open>Properties\<close>

subsection \<open>Decimal digits\<close>

lemma digitChar_inj: "a < 10 \<Longrightarrow> b < 10 \<Longrightarrow> digitChar a = digitChar b \<Longrightarrow> a = b"
proof -
  assume a: "a < 10" and b: "b < 10" and e: "digitChar a = digitChar b"
  from e have "of_char (char_of (48 + a) :: char) = (of_char (char_of (48 + b) :: char) :: nat)"
    by (simp add: digitChar_def)
  with a b show ?thesis by (simp add: of_char_of)
qed

lemma showNat_nonempty: "showNat n \<noteq> []"
  by (subst showNat.simps) simp

lemma showNat_inj: "showNat n = showNat m \<Longrightarrow> n = m"
proof (induction n arbitrary: m rule: showNat.induct)
  case (1 n)
  show ?case
  proof (cases "n < 10")
    case True
    note n = this
    show ?thesis
    proof (cases "m < 10")
      case True
      with n "1.prems" show ?thesis
        by (simp add: showNat.simps[of n] showNat.simps[of m] digitChar_inj)
    next
      case False
      with n "1.prems" showNat_nonempty[of "m div 10"] show ?thesis
        by (simp add: showNat.simps[of n] showNat.simps[of m])
    qed
  next
    case False
    note n = this
    show ?thesis
    proof (cases "m < 10")
      case True
      with n "1.prems" showNat_nonempty[of "n div 10"] show ?thesis
        by (simp add: showNat.simps[of n] showNat.simps[of m])
    next
      case False
      with n "1.prems" have e: "showNat (n div 10) = showNat (m div 10)"
        and d: "digitChar (n mod 10) = digitChar (m mod 10)"
        by (simp_all add: showNat.simps[of n] showNat.simps[of m])
      from "1.IH"[OF n e] have q: "n div 10 = m div 10" .
      from d have r: "n mod 10 = m mod 10" by (simp add: digitChar_inj)
      from q r show ?thesis by (metis div_mult_mod_eq)
    qed
  qed
qed

subsection \<open>The sort\<close>

lemma mset_insertBy: "mset (insertBy cmp a bs) = add_mset a (mset bs)"
  by (induction bs) auto

lemma mset_sortBy: "mset (sortBy cmp xs) = mset xs"
  by (induction xs) (auto simp: mset_insertBy)

lemma set_insertBy: "set (insertBy cmp a bs) = insert a (set bs)"
  by (induction bs) auto

lemma length_sortBy: "length (sortBy cmp xs) = length xs"
  using mset_sortBy[of cmp xs] by (metis size_mset)

lemma compareOrders_le: "compareOrders a b \<le> 0 \<longleftrightarrow> precedes a b"
  by (cases "urgency a"; cases "urgency b") (auto simp: compareOrders_def precedes_def)

lemma compareOrders_gt: "\<not> compareOrders a b \<le> 0 \<Longrightarrow> precedes b a"
  by (cases "urgency a"; cases "urgency b") (auto simp: compareOrders_def precedes_def)

lemma precedes_trans: "precedes a b \<Longrightarrow> precedes b c \<Longrightarrow> precedes a c"
  by (cases "urgency a"; cases "urgency b"; cases "urgency c") (auto simp: precedes_def)

lemma sorted_insertBy:
  "sorted_wrt precedes bs \<Longrightarrow> sorted_wrt precedes (insertBy compareOrders a bs)"
proof (induction bs)
  case Nil
  then show ?case by simp
next
  case (Cons b bs)
  show ?case
  proof (cases "compareOrders a b \<le> 0")
    case True
    then have "precedes a b" by (simp add: compareOrders_le)
    with Cons.prems have "\<forall>c\<in>set (b # bs). precedes a c"
      by (auto intro: precedes_trans)
    with True Cons.prems show ?thesis by simp
  next
    case False
    then have "precedes b a" by (rule compareOrders_gt)
    with False Cons show ?thesis by (auto simp: set_insertBy)
  qed
qed

lemma sorted_sortOrders: "sorted_wrt precedes (sortOrders xs)"
  unfolding sortOrders_def by (induction xs) (simp_all add: sorted_insertBy)

lemma filter_insertBy_neg: "\<not> P a \<Longrightarrow> filter P (insertBy cmp a bs) = filter P bs"
  by (induction bs) auto

lemma filter_insertBy_pos:
  "P a \<Longrightarrow> \<forall>b\<in>set bs. P b \<longrightarrow> cmp a b \<le> 0 \<Longrightarrow> filter P (insertBy cmp a bs) = a # filter P bs"
  by (induction bs) auto

lemma compareOrders_tie:
  "urgency a = urgency b \<Longrightarrow> distance a = distance b \<Longrightarrow> compareOrders a b = 0"
  by (auto simp: compareOrders_def)

lemma sortOrders_stable:
  "filter (\<lambda>z. urgency z = u \<and> distance z = d) (sortOrders xs) = filter (\<lambda>z. urgency z = u \<and> distance z = d) xs"
  unfolding sortOrders_def
proof (induction xs)
  case Nil
  show ?case by simp
next
  case (Cons a xs)
  show ?case
  proof (cases "urgency a = u \<and> distance a = d")
    case True
    then have "\<forall>b\<in>set (sortBy compareOrders xs). (urgency b = u \<and> distance b = d) \<longrightarrow> compareOrders a b \<le> 0"
      by (simp add: compareOrders_tie)
    with True show ?thesis
      using filter_insertBy_pos[of "\<lambda>z. urgency z = u \<and> distance z = d" a "sortBy compareOrders xs" compareOrders]
      by (simp add: Cons.IH)
  next
    case False
    then show ?thesis by (simp add: filter_insertBy_neg Cons.IH)
  qed
qed

subsection \<open>The allocation pass\<close>

lemma visit_owned:
  "availableTrucks st > 0 \<Longrightarrow>
   visit st order =
     (st\<lparr> availableTrucks := availableTrucks st - 1, ownedCount := ownedCount st + 1,
          currentCost := currentCost st + cost (ownedRecord (ownedCount st + 1) order),
          kmCount := kmCount st + distance order,
          scheduleLog := scheduleLog st @ [ownedRecord (ownedCount st + 1) order] \<rparr>,
      order\<lparr> status := Assigned \<rparr>)"
  by (simp add: visit_def ownedRecord_def)

lemma visit_outsourced:
  "\<not> availableTrucks st > 0 \<Longrightarrow>
   visit st order =
     (st\<lparr> outsourcedCount := outsourcedCount st + 1,
          currentCost := currentCost st + cost (thirdPartyRecord order),
          kmCount := kmCount st + distance order,
          scheduleLog := scheduleLog st @ [thirdPartyRecord order] \<rparr>,
      order\<lparr> status := Outsourced \<rparr>)"
  by (simp add: visit_def thirdPartyRecord_def)

lemma allocate_Cons:
  "allocate st (order # rest) =
     (fst (allocate (fst (visit st order)) rest),
      snd (visit st order) # snd (allocate (fst (visit st order)) rest))"
  by (simp add: split_beta)

lemma allocate_append:
  "allocate st (xs @ ys) =
     (fst (allocate (fst (allocate st xs)) ys),
      snd (allocate st xs) @ snd (allocate (fst (allocate st xs)) ys))"
  by (induction xs arbitrary: st) (simp_all add: split_beta)

lemma length_allocate: "length (snd (allocate st xs)) = length xs"
  by (induction xs arbitrary: st) (simp_all add: split_beta)

lemma available_allocate:
  "availableTrucks (fst (allocate st xs)) =
     availableTrucks st - int (min (nat (availableTrucks st)) (length xs))"
proof (induction xs arbitrary: st)
  case Nil
  show ?case by simp
next
  case (Cons a xs)
  show ?case
  proof (cases "availableTrucks st > 0")
    case True
    then show ?thesis by (simp add: allocate_Cons Cons.IH visit_owned del: allocate.simps)
  next
    case False
    then show ?thesis by (simp add: allocate_Cons Cons.IH visit_outsourced del: allocate.simps)
  qed
qed

lemma owned_allocate:
  "ownedCount (fst (allocate st xs)) =
     ownedCount st + min (nat (availableTrucks st)) (length xs)"
proof (induction xs arbitrary: st)
  case Nil
  show ?case by simp
next
  case (Cons a xs)
  show ?case
  proof (cases "availableTrucks st > 0")
    case True
    then show ?thesis by (simp add: allocate_Cons Cons.IH visit_owned del: allocate.simps)
  next
    case False
    then show ?thesis by (simp add: allocate_Cons Cons.IH visit_outsourced del: allocate.simps)
  qed
qed

lemma outsourced_allocate:
  "outsourcedCount (fst (allocate st xs)) =
     outsourcedCount st + (length xs - min (nat (availableTrucks st)) (length xs))"
proof (induction xs arbitrary: st)
  case Nil
  show ?case by simp
next
  case (Cons a xs)
  show ?case
  proof (cases "availableTrucks st > 0")
    case True
    then show ?thesis by (simp add: allocate_Cons Cons.IH visit_owned del: allocate.simps)
  next
    case False
    then show ?thesis by (simp add: allocate_Cons Cons.IH visit_outsourced del: allocate.simps)
  qed
qed

lemma km_allocate:
  "kmCount (fst (allocate st xs)) = kmCount st + sum_list (map distance xs)"
proof (induction xs arbitrary: st)
  case Nil
  show ?case by simp
next
  case (Cons a xs)
  show ?case
    by (cases "availableTrucks st > 0")
       (simp_all add: allocate_Cons Cons.IH visit_owned visit_outsourced del: allocate.simps)
qed

lemma log_allocate:
  "scheduleLog (fst (allocate st xs)) = scheduleLog st @ map (recordAt st xs) [0 ..< length xs]"
proof (induction xs arbitrary: st)
  case Nil
  show ?case by simp
next
  case (Cons a xs)
  show ?case
  proof (cases "availableTrucks st > 0")
    case True
    have "map (recordAt st (a # xs)) [0 ..< length (a # xs)] =
          recordAt st (a # xs) 0 # map (\<lambda>i. recordAt st (a # xs) (Suc i)) [0 ..< length xs]"
      by (simp add: map_upt_Suc del: upt_Suc)
    moreover have "recordAt st (a # xs) 0 = ownedRecord (ownedCount st + 1) a"
      using True by (simp add: recordAt_def)
    moreover have "\<And>i. recordAt st (a # xs) (Suc i) = recordAt (fst (visit st a)) xs i"
      using True by (auto simp: recordAt_def visit_owned)
    ultimately show ?thesis
      using True by (simp add: allocate_Cons Cons.IH visit_owned del: allocate.simps upt_Suc)
  next
    case False
    have "map (recordAt st (a # xs)) [0 ..< length (a # xs)] =
          recordAt st (a # xs) 0 # map (\<lambda>i. recordAt st (a # xs) (Suc i)) [0 ..< length xs]"
      by (simp add: map_upt_Suc del: upt_Suc)
    moreover have "recordAt st (a # xs) 0 = thirdPartyRecord a"
      using False by (simp add: recordAt_def)
    moreover have "\<And>i. recordAt st (a # xs) (Suc i) = recordAt (fst (visit st a)) xs i"
      using False by (auto simp: recordAt_def visit_outsourced)
    ultimately show ?thesis
      using False by (simp add: allocate_Cons Cons.IH visit_outsourced del: allocate.simps upt_Suc)
  qed
qed

lemma cost_allocate:
  "currentCost (fst (allocate st xs)) =
     currentCost st + sum_list (map cost (drop (length (scheduleLog st)) (scheduleLog (fst (allocate st xs)))))"
proof (induction xs arbitrary: st)
  case Nil
  show ?case by simp
next
  case (Cons a xs)
  let ?st1 = "fst (visit st a)"
  have log1: "scheduleLog (fst (allocate ?st1 xs)) = scheduleLog ?st1 @ map (recordAt ?st1 xs) [0 ..< length xs]"
    by (rule log_allocate)
  show ?case
  proof (cases "availableTrucks st > 0")
    case True
    then show ?thesis
      using Cons.IH[of ?st1] log1
      by (simp add: allocate_Cons visit_owned del: allocate.simps upt_Suc)
  next
    case False
    then show ?thesis
      using Cons.IH[of ?st1] log1
      by (simp add: allocate_Cons visit_outsourced del: allocate.simps upt_Suc)
  qed
qed

lemma orders_allocate:
  "i < length xs \<Longrightarrow>
   snd (allocate st xs) ! i =
     (xs ! i)\<lparr> status := (if int i < availableTrucks st then Assigned else Outsourced) \<rparr>"
proof (induction xs arbitrary: st i)
  case Nil
  then show ?case by simp
next
  case (Cons a xs)
  show ?case
  proof (cases i)
    case 0
    then show ?thesis
      by (cases "availableTrucks st > 0")
         (simp_all add: allocate_Cons visit_owned visit_outsourced del: allocate.simps)
  next
    case (Suc j)
    with Cons.prems have j: "j < length xs" by simp
    show ?thesis
      using Suc Cons.IH[OF j, of "fst (visit st a)"]
      by (cases "availableTrucks st > 0")
         (auto simp add: allocate_Cons visit_owned visit_outsourced simp del: allocate.simps)
  qed
qed

subsection \<open>The generator\<close>

lemma arrayFromLength_Inr:
  "numOrders < 2 ^ 32 \<Longrightarrow> arrayFromLength numOrders = Inr [0 ..< nat numOrders]"
  by (simp add: arrayFromLength_def)

lemma generateOrders_Inr:
  "numOrders < 2 ^ 32 \<Longrightarrow>
   generateOrders numOrders rnd = Inr (map (newOrder rnd) [0 ..< nat numOrders])"
  by (simp add: generateOrders_def arrayFromLength_Inr)

lemma generateOrders_dashboard_Inr:
  "numOrders < 2 ^ 32 \<Longrightarrow>
   generateOrders_dashboard numOrders rnd = Inr (map (newOrder_dashboard rnd) [0 ..< nat numOrders])"
  by (simp add: generateOrders_dashboard_def arrayFromLength_Inr)

lemma runSimulation_Inr:
  "numOrders < 2 ^ 32 \<Longrightarrow>
   runSimulation numOrders fleetSize rnd =
     Inr (dispatch (map (newOrder rnd) [0 ..< nat numOrders]) fleetSize)"
  by (simp add: runSimulation_def generateOrders_Inr)

lemma runSimulation_dashboard_Inr:
  "numOrders < 2 ^ 32 \<Longrightarrow>
   runSimulation_dashboard numOrders fleetSize rnd =
     Inr (dispatch (map (newOrder_dashboard rnd) [0 ..< nat numOrders]) fleetSize)"
  by (simp add: runSimulation_dashboard_def generateOrders_dashboard_Inr)

lemma runSimulation_RangeError:
  "2 ^ 32 \<le> numOrders \<Longrightarrow> runSimulation numOrders fleetSize rnd = Inl RangeError"
  by (simp add: runSimulation_def generateOrders_def arrayFromLength_def)

lemma status_newOrder: "status (newOrder rnd i) = Pending"
  by (simp add: newOrder_def Let_def)

lemma distance_newOrder: "50 \<le> distance (newOrder rnd i)"
  by (simp add: newOrder_def Let_def)

lemma status_newOrder_dashboard: "status (newOrder_dashboard rnd i) = Pending"
  by (simp add: newOrder_dashboard_def Let_def)

lemma distance_newOrder_dashboard: "40 \<le> distance (newOrder_dashboard rnd i)"
  by (simp add: newOrder_dashboard_def Let_def)

lemma id_newOrder: "id_o (newOrder rnd i) = ''ORD-'' @ showNat (1000 + i)"
  by (simp add: newOrder_def Let_def)

lemma distinct_ids_newOrder: "distinct (map (id_o \<circ> newOrder rnd) [0 ..< n])"
  by (auto simp: distinct_map inj_on_def id_newOrder dest: showNat_inj)

subsection \<open>The whole run in closed form\<close>

lemma length_sortOrders: "length (sortOrders xs) = length xs"
  by (simp add: sortOrders_def length_sortBy)

lemma mset_sortOrders: "mset (sortOrders xs) = mset xs"
  by (simp add: sortOrders_def mset_sortBy)

lemma set_sortOrders: "set (sortOrders xs) = set xs"
  using mset_sortOrders[of xs] by (metis set_mset_mset)

lemma fst_dispatch: "fst (dispatch xs f) = snd (allocate (initState f) (sortOrders xs))"
  by (simp add: dispatch_def split_beta Let_def)

lemma snd_dispatch: "snd (dispatch xs f) = metrics (fst (allocate (initState f) (sortOrders xs)))"
  by (simp add: dispatch_def split_beta Let_def)

lemma length_orders_dispatch: "length (fst (dispatch xs f)) = length xs"
  by (simp add: fst_dispatch length_allocate length_sortOrders)

lemma schedule_dispatch:
  "schedule (snd (dispatch xs f)) = map (recordAt (initState f) (sortOrders xs)) [0 ..< length xs]"
  by (simp add: snd_dispatch metrics_def log_allocate length_sortOrders initState_def)

lemma length_schedule_dispatch: "length (schedule (snd (dispatch xs f))) = length xs"
  by (simp add: schedule_dispatch)

lemma ownedUsage_dispatch: "ownedUsage (snd (dispatch xs f)) = min (nat f) (length xs)"
  by (simp add: snd_dispatch metrics_def owned_allocate length_sortOrders initState_def)

lemma outsourcedUsage_dispatch:
  "outsourcedUsage (snd (dispatch xs f)) = length xs - min (nat f) (length xs)"
  by (simp add: snd_dispatch metrics_def outsourced_allocate length_sortOrders initState_def)

lemma totalKm_dispatch: "totalKm (snd (dispatch xs f)) = sum_list (map distance (sortOrders xs))"
  by (simp add: snd_dispatch metrics_def km_allocate initState_def)

lemma totalCost_dispatch:
  "totalCost (snd (dispatch xs f)) = sum_list (map cost (schedule (snd (dispatch xs f))))"
  using cost_allocate[of "initState f" "sortOrders xs"]
  by (simp add: snd_dispatch metrics_def initState_def)

lemma nth_orders_dispatch:
  "i < length xs \<Longrightarrow>
   fst (dispatch xs f) ! i =
     (sortOrders xs ! i)\<lparr> status := (if int i < f then Assigned else Outsourced) \<rparr>"
  by (simp add: fst_dispatch orders_allocate length_sortOrders initState_def)

lemma nth_schedule_dispatch:
  "i < length xs \<Longrightarrow>
   schedule (snd (dispatch xs f)) ! i =
     (if int i < f then ownedRecord (i + 1) (sortOrders xs ! i)
      else thirdPartyRecord (sortOrders xs ! i))"
  by (simp add: schedule_dispatch recordAt_def initState_def)

subsection \<open>The example run\<close>

lemma showNat_1000: "showNat 1000 = ''1000''" by code_simp
lemma showNat_1001: "showNat 1001 = ''1001''" by code_simp
lemma showNat_1002: "showNat 1002 = ''1002''" by code_simp
lemma newOrder_example0: "newOrder exampleDraws 0 = exampleOrder0"
  by (simp add: newOrder_def exampleDraws_def exampleOrder0_def showNat_1000
      MAP_WIDTH_def MAP_HEIGHT_def PORT_X_def PORT_Y_def)

lemma newOrder_example1: "newOrder exampleDraws 1 = exampleOrder1"
  by (simp add: newOrder_def exampleDraws_def exampleOrder1_def showNat_1001
      MAP_WIDTH_def MAP_HEIGHT_def PORT_X_def PORT_Y_def)

lemma newOrder_example2: "newOrder exampleDraws 2 = exampleOrder2"
  by (simp add: newOrder_def exampleDraws_def exampleOrder2_def showNat_1002
      MAP_WIDTH_def MAP_HEIGHT_def PORT_X_def PORT_Y_def)

lemma sortOrders_example:
  "sortOrders [exampleOrder0, exampleOrder1, exampleOrder2] = [exampleOrder1, exampleOrder0, exampleOrder2]"
  by (simp add: sortOrders_def compareOrders_def exampleOrder0_def exampleOrder1_def exampleOrder2_def)

lemma generateOrders_example:
  "generateOrders 3 exampleDraws = Inr [exampleOrder0, exampleOrder1, exampleOrder2]"
proof -
  have "[0 ..< nat 3] = [0, 1, 2]" by (simp add: upt_rec)
  then show ?thesis
    by (simp add: generateOrders_Inr newOrder_example0 newOrder_example1[unfolded One_nat_def] newOrder_example2)
qed

lemma showNat_Suc0: "showNat (Suc 0) = ''1''" by code_simp
lemma showNat_Suc1: "showNat (Suc (Suc 0)) = ''2''" by code_simp

lemma allocate_example2:
  "allocate (initState 2) [exampleOrder1, exampleOrder0, exampleOrder2] =
    (\<lparr> currentCost = 14490, ownedCount = 2, outsourcedCount = 1, kmCount = 870,
       availableTrucks = 0,
       scheduleLog =
         [\<lparr> orderId = ''ORD-1001'', vehicleId = ''VEH-1'', method_r = ''Owned'', cost = 3270, distance_r = 220 \<rparr>,
          \<lparr> orderId = ''ORD-1000'', vehicleId = ''VEH-2'', method_r = ''Owned'', cost = 5160, distance_r = 360 \<rparr>,
          \<lparr> orderId = ''ORD-1002'', vehicleId = ''3RD-PARTY'', method_r = ''Outsourced'', cost = 6060, distance_r = 290 \<rparr>] \<rparr>,
     [exampleOrder1\<lparr> status := Assigned \<rparr>, exampleOrder0\<lparr> status := Assigned \<rparr>,
      exampleOrder2\<lparr> status := Outsourced \<rparr>])"
  by (simp add: initState_def visit_def exampleOrder0_def exampleOrder1_def exampleOrder2_def
      showNat_Suc0 showNat_Suc1 COST_OWNED_FIXED_def COST_OWNED_PER_KM_def
      COST_3RD_PARTY_FIXED_def COST_3RD_PARTY_PER_KM_def)

subsection \<open>Facts for the claims\<close>

lemma length_generated: "length (map (newOrder rnd) [0 ..< n]) = n" by simp

lemma available_stateBefore:
  "i \<le> length xs \<Longrightarrow>
   availableTrucks (stateBefore f xs i) = f - int (min (nat f) i)"
  by (simp add: stateBefore_def available_allocate initState_def min_absorb2)

lemma owned_stateBefore:
  "i \<le> length xs \<Longrightarrow> ownedCount (stateBefore f xs i) = min (nat f) i"
  by (simp add: stateBefore_def owned_allocate initState_def min_absorb2)

lemma stateBefore_Suc:
  "i < length xs \<Longrightarrow>
   stateBefore f xs (Suc i) = fst (visit (stateBefore f xs i) (xs ! i))"
  by (simp add: stateBefore_def take_Suc_conv_app_nth allocate_append split_beta)

lemma stateBefore_length:
  "stateBefore f xs (length xs) = fst (allocate (initState f) xs)"
  by (simp add: stateBefore_def)

lemma stateBefore_owned_step:
  assumes "i < length xs" and "0 < availableTrucks (stateBefore f xs i)"
  shows "int i < f"
    and "availableTrucks (stateBefore f xs (Suc i)) = availableTrucks (stateBefore f xs i) - 1"
    and "ownedCount (stateBefore f xs (Suc i)) = ownedCount (stateBefore f xs i) + 1"
    and "ownedCount (stateBefore f xs (Suc i)) = i + 1"
proof -
  from assms have a: "0 < f - int (min (nat f) i)"
    by (simp add: available_stateBefore)
  then show lt: "int i < f" by linarith
  from assms(1) have le: "i \<le> length xs" "Suc i \<le> length xs" by simp_all
  from lt show "availableTrucks (stateBefore f xs (Suc i)) = availableTrucks (stateBefore f xs i) - 1"
    by (simp add: available_stateBefore[OF le(1)] available_stateBefore[OF le(2)])
  from lt show "ownedCount (stateBefore f xs (Suc i)) = ownedCount (stateBefore f xs i) + 1"
    by (simp add: owned_stateBefore[OF le(1)] owned_stateBefore[OF le(2)])
  from lt show "ownedCount (stateBefore f xs (Suc i)) = i + 1"
    by (simp add: owned_stateBefore[OF le(2)])
qed

lemma stateBefore_outsourced_step:
  assumes "i < length xs" and "\<not> 0 < availableTrucks (stateBefore f xs i)"
  shows "\<not> int i < f"
    and "availableTrucks (stateBefore f xs (Suc i)) = availableTrucks (stateBefore f xs i)"
    and "ownedCount (stateBefore f xs (Suc i)) = ownedCount (stateBefore f xs i)"
proof -
  from assms have a: "\<not> 0 < f - int (min (nat f) i)"
    by (simp add: available_stateBefore)
  then show ge: "\<not> int i < f" by linarith
  from assms(1) have le: "i \<le> length xs" "Suc i \<le> length xs" by simp_all
  from ge show "availableTrucks (stateBefore f xs (Suc i)) = availableTrucks (stateBefore f xs i)"
    by (simp add: available_stateBefore[OF le(1)] available_stateBefore[OF le(2)])
  from ge show "ownedCount (stateBefore f xs (Suc i)) = ownedCount (stateBefore f xs i)"
    by (simp add: owned_stateBefore[OF le(1)] owned_stateBefore[OF le(2)])
qed

lemma status_sorted_generated:
  assumes "i < n"
  shows "status (sortOrders (map (newOrder rnd) [0 ..< n]) ! i) = Pending"
proof -
  let ?new = "map (newOrder rnd) [0 ..< n]"
  from assms have "sortOrders ?new ! i \<in> set (sortOrders ?new)"
    by (simp add: length_sortOrders)
  then have "sortOrders ?new ! i \<in> set ?new" by (simp add: set_sortOrders)
  then show ?thesis by (auto simp: status_newOrder)
qed

lemma vehicleId_records [simp]:
  "vehicleId (ownedRecord k a) = ''VEH-'' @ showNat k"
  "vehicleId (thirdPartyRecord a) = ''3RD-PARTY''"
  "method_r (ownedRecord k a) = ''Owned''"
  "method_r (thirdPartyRecord a) = ''Outsourced''"
  "orderId (ownedRecord k a) = id_o a"
  "orderId (thirdPartyRecord a) = id_o a"
  "distance_r (ownedRecord k a) = distance a"
  "distance_r (thirdPartyRecord a) = distance a"
  by (simp_all add: ownedRecord_def thirdPartyRecord_def)

lemma dispatch_greedy:
  assumes "0 \<le> f"
  shows "length (fst (dispatch xs f)) = length xs \<and>
         length (schedule (snd (dispatch xs f))) = length xs \<and>
         ownedUsage (snd (dispatch xs f)) = min (nat f) (length xs) \<and>
         (\<forall>i < length xs.
            orderId (schedule (snd (dispatch xs f)) ! i) = id_o (sortOrders xs ! i) \<and>
            (if i < ownedUsage (snd (dispatch xs f)) then
               fst (dispatch xs f) ! i = (sortOrders xs ! i)\<lparr> status := Assigned \<rparr> \<and>
               method_r (schedule (snd (dispatch xs f)) ! i) = ''Owned'' \<and>
               vehicleId (schedule (snd (dispatch xs f)) ! i) = ''VEH-'' @ showNat (i + 1)
             else
               fst (dispatch xs f) ! i = (sortOrders xs ! i)\<lparr> status := Outsourced \<rparr> \<and>
               method_r (schedule (snd (dispatch xs f)) ! i) = ''Outsourced'' \<and>
               vehicleId (schedule (snd (dispatch xs f)) ! i) = ''3RD-PARTY'')) \<and>
         distinct (map vehicleId (take (ownedUsage (snd (dispatch xs f)))
                                       (schedule (snd (dispatch xs f)))))"
proof -
  let ?orders = "fst (dispatch xs f)" and ?res = "snd (dispatch xs f)"
  have own: "ownedUsage ?res = min (nat f) (length xs)"
    by (rule ownedUsage_dispatch)
  have iff: "i < ownedUsage ?res \<longleftrightarrow> int i < f" if "i < length xs" for i
    using that assms by (simp add: own) linarith
  have each: "orderId (schedule ?res ! i) = id_o (sortOrders xs ! i) \<and>
            (if i < ownedUsage ?res then
               ?orders ! i = (sortOrders xs ! i)\<lparr> status := Assigned \<rparr> \<and>
               method_r (schedule ?res ! i) = ''Owned'' \<and>
               vehicleId (schedule ?res ! i) = ''VEH-'' @ showNat (i + 1)
             else
               ?orders ! i = (sortOrders xs ! i)\<lparr> status := Outsourced \<rparr> \<and>
               method_r (schedule ?res ! i) = ''Outsourced'' \<and>
               vehicleId (schedule ?res ! i) = ''3RD-PARTY'')"
    if i: "i < length xs" for i
    using iff[OF i] by (simp add: nth_orders_dispatch[OF i] nth_schedule_dispatch[OF i])
  have label: "vehicleId (take (ownedUsage ?res) (schedule ?res) ! i) = ''VEH-'' @ showNat (i + 1)"
    if i: "i < ownedUsage ?res" for i
  proof -
    from i have il: "i < length xs" by (simp add: own)
    with i each[OF il] show ?thesis by simp
  qed
  have dist: "distinct (map vehicleId (take (ownedUsage ?res) (schedule ?res)))"
  proof -
    have len: "length (take (ownedUsage ?res) (schedule ?res)) = ownedUsage ?res"
      by (simp add: length_schedule_dispatch own)
    show ?thesis
      unfolding distinct_conv_nth
    proof (intro allI impI)
      fix i j
      assume i: "i < length (map vehicleId (take (ownedUsage ?res) (schedule ?res)))"
        and j: "j < length (map vehicleId (take (ownedUsage ?res) (schedule ?res)))"
        and ne: "i \<noteq> j"
      from i len have i': "i < ownedUsage ?res" by simp
      from j len have j': "j < ownedUsage ?res" by simp
      have "showNat (i + 1) \<noteq> showNat (j + 1)"
        using ne showNat_inj[of "i + 1" "j + 1"] by auto
      then show "map vehicleId (take (ownedUsage ?res) (schedule ?res)) ! i \<noteq>
                 map vehicleId (take (ownedUsage ?res) (schedule ?res)) ! j"
        using i j label[OF i'] label[OF j'] by (simp add: nth_map del: nth_take)
    qed
  qed
  show ?thesis
    using own each dist by (simp add: length_orders_dispatch length_schedule_dispatch)
qed

lemma map_orderId_schedule:
  "map orderId (schedule (snd (dispatch xs f))) = map id_o (sortOrders xs)"
proof (rule nth_equalityI)
  show "length (map orderId (schedule (snd (dispatch xs f)))) = length (map id_o (sortOrders xs))"
    by (simp add: length_schedule_dispatch length_sortOrders)
next
  fix i assume "i < length (map orderId (schedule (snd (dispatch xs f))))"
  then have i: "i < length xs" by (simp add: length_schedule_dispatch)
  then show "map orderId (schedule (snd (dispatch xs f))) ! i = map id_o (sortOrders xs) ! i"
    by (simp add: length_schedule_dispatch length_sortOrders nth_schedule_dispatch)
qed

lemma map_distance_schedule:
  "map distance_r (schedule (snd (dispatch xs f))) = map distance (sortOrders xs)"
proof (rule nth_equalityI)
  show "length (map distance_r (schedule (snd (dispatch xs f)))) = length (map distance (sortOrders xs))"
    by (simp add: length_schedule_dispatch length_sortOrders)
next
  fix i assume "i < length (map distance_r (schedule (snd (dispatch xs f))))"
  then have i: "i < length xs" by (simp add: length_schedule_dispatch)
  then show "map distance_r (schedule (snd (dispatch xs f))) ! i = map distance (sortOrders xs) ! i"
    by (simp add: length_schedule_dispatch length_sortOrders nth_schedule_dispatch)
qed

lemma map_id_orders:
  "map id_o (fst (dispatch xs f)) = map id_o (sortOrders xs)"
proof (rule nth_equalityI)
  show "length (map id_o (fst (dispatch xs f))) = length (map id_o (sortOrders xs))"
    by (simp add: length_orders_dispatch length_sortOrders)
next
  fix i assume "i < length (map id_o (fst (dispatch xs f)))"
  then have i: "i < length xs" by (simp add: length_orders_dispatch)
  then show "map id_o (fst (dispatch xs f)) ! i = map id_o (sortOrders xs) ! i"
    by (simp add: length_orders_dispatch length_sortOrders nth_orders_dispatch)
qed

lemma precedes_total: "precedes a b \<or> precedes b a"
  by (cases "urgency a"; cases "urgency b") (auto simp: precedes_def)

lemma dispatch_Nil:
  "dispatch [] f =
     ([], \<lparr> schedule = [], totalCost = 0, ownedUsage = 0, outsourcedUsage = 0, totalKm = 0,
            manualCostEst = 0, savings = 0, co2 = 0 \<rparr>)"
  by (simp add: dispatch_def sortOrders_def initState_def metrics_def)

lemma status_orders_dispatch:
  assumes "a \<in> set (fst (dispatch xs f))"
  shows "\<exists>i < length xs. status a = (if int i < f then Assigned else Outsourced)"
proof -
  from assms obtain i where i: "i < length (fst (dispatch xs f))" and a: "fst (dispatch xs f) ! i = a"
    by (auto simp: in_set_conv_nth)
  from i have il: "i < length xs" by (simp add: length_orders_dispatch)
  from a nth_orders_dispatch[OF il, of f] have "status a = (if int i < f then Assigned else Outsourced)"
    by auto
  with il show ?thesis by blast
qed

lemma cost_schedule_nonneg:
  assumes "\<forall>a \<in> set xs. 0 \<le> distance a" and "r \<in> set (schedule (snd (dispatch xs f)))"
  shows "0 \<le> cost r"
proof -
  from assms(2) obtain i where i: "i < length xs" and r: "schedule (snd (dispatch xs f)) ! i = r"
    by (auto simp: in_set_conv_nth length_schedule_dispatch)
  from i have "sortOrders xs ! i \<in> set xs"
    using set_sortOrders[of xs] length_sortOrders[of xs] nth_mem[of i "sortOrders xs"] by simp
  with assms(1) have d: "0 \<le> distance (sortOrders xs ! i)" by blast
  from r nth_schedule_dispatch[OF i, of f]
  have "r = ownedRecord (i + 1) (sortOrders xs ! i) \<or> r = thirdPartyRecord (sortOrders xs ! i)"
    by (auto split: if_splits)
  with d show ?thesis
    by (auto simp: ownedRecord_def thirdPartyRecord_def COST_OWNED_FIXED_def COST_OWNED_PER_KM_def
        COST_3RD_PARTY_FIXED_def COST_3RD_PARTY_PER_KM_def)
qed

lemma dispatch_example2:
  "dispatch [exampleOrder0, exampleOrder1, exampleOrder2] 2 =
     ([exampleOrder1\<lparr> status := Assigned \<rparr>, exampleOrder0\<lparr> status := Assigned \<rparr>,
       exampleOrder2\<lparr> status := Outsourced \<rparr>],
      \<lparr> schedule =
         [\<lparr> orderId = ''ORD-1001'', vehicleId = ''VEH-1'', method_r = ''Owned'', cost = 3270, distance_r = 220 \<rparr>,
          \<lparr> orderId = ''ORD-1000'', vehicleId = ''VEH-2'', method_r = ''Owned'', cost = 5160, distance_r = 360 \<rparr>,
          \<lparr> orderId = ''ORD-1002'', vehicleId = ''3RD-PARTY'', method_r = ''Outsourced'', cost = 6060, distance_r = 290 \<rparr>],
        totalCost = 14490, ownedUsage = 2, outsourcedUsage = 1, totalKm = 870,
        manualCostEst = 16706.97, savings = 2216.97, co2 = 234.9 \<rparr>)"
  by (simp add: dispatch_def sortOrders_example allocate_example2 metrics_def CO2_PER_KM_def
      del: allocate.simps)

lemma runSimulation_example:
  "runSimulation 3 2 exampleDraws =
     Inr (dispatch [exampleOrder0, exampleOrder1, exampleOrder2] 2)"
  by (simp add: runSimulation_def generateOrders_example)

lemma allocate_example_neg:
  "snd (allocate (initState (- 1)) [exampleOrder1, exampleOrder0, exampleOrder2]) =
     [exampleOrder1\<lparr> status := Outsourced \<rparr>, exampleOrder0\<lparr> status := Outsourced \<rparr>,
      exampleOrder2\<lparr> status := Outsourced \<rparr>]"
  by (simp add: initState_def visit_def)

section \<open>The claims\<close>

text \<open>
  C1. A run with a non-negative fleet size returns a result whose counts add up to the
  number of orders processed (the length of the order list and of the schedule log), and
  whose owned count does not exceed the fleet size. A run returns a result exactly when
  \<open>numOrders < 2^32\<close>; from there on \<open>Array.from\<close> raises and there is no result.
\<close>

theorem runSimulation_counts:
  assumes "numOrders < 2 ^ 32" and "0 \<le> fleetSize"
  shows "\<exists>orders res.
           runSimulation numOrders fleetSize rnd = Inr (orders, res) \<and>
           length orders = nat numOrders \<and>
           length (schedule res) = nat numOrders \<and>
           ownedUsage res + outsourcedUsage res = nat numOrders \<and>
           int (ownedUsage res) \<le> fleetSize"
proof -
  let ?new = "map (newOrder rnd) [0 ..< nat numOrders]"
  let ?out = "dispatch ?new fleetSize"
  have run: "runSimulation numOrders fleetSize rnd = Inr (fst ?out, snd ?out)"
    using assms(1) by (simp add: runSimulation_Inr)
  have len: "length (fst ?out) = nat numOrders"
    by (simp add: length_orders_dispatch)
  have log: "length (schedule (snd ?out)) = nat numOrders"
    by (simp add: length_schedule_dispatch)
  have total: "ownedUsage (snd ?out) + outsourcedUsage (snd ?out) = nat numOrders"
    by (simp add: ownedUsage_dispatch outsourcedUsage_dispatch)
  have cap: "int (ownedUsage (snd ?out)) \<le> fleetSize"
    using assms(2) by (simp add: ownedUsage_dispatch)
  from run len log total cap show ?thesis by blast
qed

theorem runSimulation_counts_witness:
  "(3::int) < 2 ^ 32 \<and> (0::int) \<le> 2 \<and>
   (\<exists>orders res.
      runSimulation 3 2 exampleDraws = Inr (orders, res) \<and>
      length orders = 3 \<and> length (schedule res) = 3 \<and>
      ownedUsage res + outsourcedUsage res = 3 \<and> ownedUsage res \<le> 2)"
  using runSimulation_counts [of 3 2 exampleDraws] by simp

text \<open>
  C2. The allocator is one pass over the sorted sequence with the counter
  \<open>availableTrucks\<close> starting at \<open>fleetSize\<close>. \<open>stateBefore fleetSize sorted i\<close> holds the
  closure variables just before position \<open>i\<close> is visited. Every visited order is still
  \<open>Pending\<close>. If the counter is positive there, the visit decrements it, the returned order
  at \<open>i\<close> is that order with status \<open>Assigned\<close>, and log entry \<open>i\<close> has the owned cost
  \<open>COST_OWNED_FIXED + distance * COST_OWNED_PER_KM\<close> and the label \<open>VEH-k\<close>, \<open>k\<close> the owned
  count after the visit. Otherwise the counter stays, the returned order has status
  \<open>Outsourced\<close>, and the entry has the third-party cost and the label \<open>3RD-PARTY\<close>. Each
  order is returned once, with the one status its visit gave it.
\<close>

theorem allocation_pass:
  assumes "numOrders < 2 ^ 32"
  shows "\<exists>newOrders orders res.
     generateOrders numOrders rnd = Inr newOrders \<and>
     runSimulation numOrders fleetSize rnd = Inr (orders, res) \<and>
     length orders = length newOrders \<and>
     length (schedule res) = length newOrders \<and>
     availableTrucks (stateBefore fleetSize (sortOrders newOrders) 0) = fleetSize \<and>
     ownedCount (stateBefore fleetSize (sortOrders newOrders) 0) = 0 \<and>
     (\<forall>i < length newOrders.
        status (sortOrders newOrders ! i) = Pending \<and>
        (if 0 < availableTrucks (stateBefore fleetSize (sortOrders newOrders) i) then
           availableTrucks (stateBefore fleetSize (sortOrders newOrders) (Suc i)) =
             availableTrucks (stateBefore fleetSize (sortOrders newOrders) i) - 1 \<and>
           ownedCount (stateBefore fleetSize (sortOrders newOrders) (Suc i)) =
             ownedCount (stateBefore fleetSize (sortOrders newOrders) i) + 1 \<and>
           orders ! i = (sortOrders newOrders ! i)\<lparr> status := Assigned \<rparr> \<and>
           schedule res ! i =
             \<lparr> orderId = id_o (sortOrders newOrders ! i),
               vehicleId = ''VEH-'' @
                 showNat (ownedCount (stateBefore fleetSize (sortOrders newOrders) (Suc i))),
               method_r = ''Owned'',
               cost = COST_OWNED_FIXED +
                 real_of_int (distance (sortOrders newOrders ! i)) * COST_OWNED_PER_KM,
               distance_r = distance (sortOrders newOrders ! i) \<rparr>
         else
           availableTrucks (stateBefore fleetSize (sortOrders newOrders) (Suc i)) =
             availableTrucks (stateBefore fleetSize (sortOrders newOrders) i) \<and>
           ownedCount (stateBefore fleetSize (sortOrders newOrders) (Suc i)) =
             ownedCount (stateBefore fleetSize (sortOrders newOrders) i) \<and>
           orders ! i = (sortOrders newOrders ! i)\<lparr> status := Outsourced \<rparr> \<and>
           schedule res ! i =
             \<lparr> orderId = id_o (sortOrders newOrders ! i),
               vehicleId = ''3RD-PARTY'',
               method_r = ''Outsourced'',
               cost = COST_3RD_PARTY_FIXED +
                 real_of_int (distance (sortOrders newOrders ! i)) * COST_3RD_PARTY_PER_KM,
               distance_r = distance (sortOrders newOrders ! i) \<rparr>))"
proof -
  let ?new = "map (newOrder rnd) [0 ..< nat numOrders]"
  let ?xs = "sortOrders ?new"
  let ?out = "dispatch ?new fleetSize"
  let ?sb = "stateBefore fleetSize ?xs"
  have gen: "generateOrders numOrders rnd = Inr ?new"
    using assms by (rule generateOrders_Inr)
  have run: "runSimulation numOrders fleetSize rnd = Inr (fst ?out, snd ?out)"
    using assms by (simp add: runSimulation_Inr)
  have len: "length (fst ?out) = length ?new"
    by (rule length_orders_dispatch)
  have log: "length (schedule (snd ?out)) = length ?new"
    by (rule length_schedule_dispatch)
  have init: "availableTrucks (?sb 0) = fleetSize" "ownedCount (?sb 0) = 0"
    by (simp_all add: stateBefore_def initState_def)
  have step: "status (?xs ! i) = Pending \<and>
        (if 0 < availableTrucks (?sb i) then
           availableTrucks (?sb (Suc i)) = availableTrucks (?sb i) - 1 \<and>
           ownedCount (?sb (Suc i)) = ownedCount (?sb i) + 1 \<and>
           fst ?out ! i = (?xs ! i)\<lparr> status := Assigned \<rparr> \<and>
           schedule (snd ?out) ! i =
             \<lparr> orderId = id_o (?xs ! i),
               vehicleId = ''VEH-'' @ showNat (ownedCount (?sb (Suc i))),
               method_r = ''Owned'',
               cost = COST_OWNED_FIXED + real_of_int (distance (?xs ! i)) * COST_OWNED_PER_KM,
               distance_r = distance (?xs ! i) \<rparr>
         else
           availableTrucks (?sb (Suc i)) = availableTrucks (?sb i) \<and>
           ownedCount (?sb (Suc i)) = ownedCount (?sb i) \<and>
           fst ?out ! i = (?xs ! i)\<lparr> status := Outsourced \<rparr> \<and>
           schedule (snd ?out) ! i =
             \<lparr> orderId = id_o (?xs ! i),
               vehicleId = ''3RD-PARTY'',
               method_r = ''Outsourced'',
               cost = COST_3RD_PARTY_FIXED + real_of_int (distance (?xs ! i)) * COST_3RD_PARTY_PER_KM,
               distance_r = distance (?xs ! i) \<rparr>)"
    if i: "i < length ?new" for i
  proof -
    from i have i': "i < length ?xs" by (simp add: length_sortOrders)
    from i have pend: "status (?xs ! i) = Pending"
      by (simp add: status_sorted_generated)
    show ?thesis
    proof (cases "0 < availableTrucks (?sb i)")
      case True
      note s = stateBefore_owned_step[OF i' True]
      from s(1) i have "fst ?out ! i = (?xs ! i)\<lparr> status := Assigned \<rparr>"
        by (simp add: nth_orders_dispatch)
      moreover from s(1) i have "schedule (snd ?out) ! i = ownedRecord (i + 1) (?xs ! i)"
        by (simp add: nth_schedule_dispatch)
      ultimately show ?thesis
        using True pend s(2,3,4) by (simp add: ownedRecord_def)
    next
      case False
      note s = stateBefore_outsourced_step[OF i' False]
      from s(1) i have "fst ?out ! i = (?xs ! i)\<lparr> status := Outsourced \<rparr>"
        by (simp add: nth_orders_dispatch)
      moreover from s(1) i have "schedule (snd ?out) ! i = thirdPartyRecord (?xs ! i)"
        by (simp add: nth_schedule_dispatch)
      ultimately show ?thesis
        using False pend s(2,3) by (simp add: thirdPartyRecord_def)
    qed
  qed
  show ?thesis
  proof (intro exI conjI)
    show "generateOrders numOrders rnd = Inr ?new" by (rule gen)
    show "runSimulation numOrders fleetSize rnd = Inr (fst ?out, snd ?out)" by (rule run)
    show "length (fst ?out) = length ?new" by (rule len)
    show "length (schedule (snd ?out)) = length ?new" by (rule log)
    show "availableTrucks (?sb 0) = fleetSize" by (rule init(1))
    show "ownedCount (?sb 0) = 0" by (rule init(2))
  qed (use step in blast)
qed

theorem allocation_pass_witness:
  "(3::int) < 2 ^ 32 \<and>
   0 < availableTrucks (stateBefore 2 [exampleOrder1, exampleOrder0, exampleOrder2] 0) \<and>
   \<not> 0 < availableTrucks (stateBefore 2 [exampleOrder1, exampleOrder0, exampleOrder2] 2) \<and>
   (\<exists>orders res. runSimulation 3 2 exampleDraws = Inr (orders, res) \<and>
      length orders = 3 \<and>
      orders ! 0 = exampleOrder1\<lparr> status := Assigned \<rparr> \<and>
      vehicleId (schedule res ! 0) = ''VEH-1'' \<and> cost (schedule res ! 0) = 3270 \<and>
      orders ! 2 = exampleOrder2\<lparr> status := Outsourced \<rparr> \<and>
      vehicleId (schedule res ! 2) = ''3RD-PARTY'' \<and> cost (schedule res ! 2) = 6060)"
proof -
  let ?xs = "[exampleOrder1, exampleOrder0, exampleOrder2]"
  have h: "(3::int) < 2 ^ 32" by simp
  from allocation_pass[OF h, of exampleDraws 2] obtain newOrders orders res
    where g: "generateOrders 3 exampleDraws = Inr newOrders"
      and r: "runSimulation 3 2 exampleDraws = Inr (orders, res)"
      and l: "length orders = length newOrders"
      and a0: "availableTrucks (stateBefore 2 (sortOrders newOrders) 0) = 2"
      and o0: "ownedCount (stateBefore 2 (sortOrders newOrders) 0) = 0"
      and each: "\<forall>i < length newOrders.
        status (sortOrders newOrders ! i) = Pending \<and>
        (if 0 < availableTrucks (stateBefore 2 (sortOrders newOrders) i) then
           availableTrucks (stateBefore 2 (sortOrders newOrders) (Suc i)) =
             availableTrucks (stateBefore 2 (sortOrders newOrders) i) - 1 \<and>
           ownedCount (stateBefore 2 (sortOrders newOrders) (Suc i)) =
             ownedCount (stateBefore 2 (sortOrders newOrders) i) + 1 \<and>
           orders ! i = (sortOrders newOrders ! i)\<lparr> status := Assigned \<rparr> \<and>
           schedule res ! i =
             \<lparr> orderId = id_o (sortOrders newOrders ! i),
               vehicleId = ''VEH-'' @
                 showNat (ownedCount (stateBefore 2 (sortOrders newOrders) (Suc i))),
               method_r = ''Owned'',
               cost = COST_OWNED_FIXED +
                 real_of_int (distance (sortOrders newOrders ! i)) * COST_OWNED_PER_KM,
               distance_r = distance (sortOrders newOrders ! i) \<rparr>
         else
           availableTrucks (stateBefore 2 (sortOrders newOrders) (Suc i)) =
             availableTrucks (stateBefore 2 (sortOrders newOrders) i) \<and>
           ownedCount (stateBefore 2 (sortOrders newOrders) (Suc i)) =
             ownedCount (stateBefore 2 (sortOrders newOrders) i) \<and>
           orders ! i = (sortOrders newOrders ! i)\<lparr> status := Outsourced \<rparr> \<and>
           schedule res ! i =
             \<lparr> orderId = id_o (sortOrders newOrders ! i),
               vehicleId = ''3RD-PARTY'',
               method_r = ''Outsourced'',
               cost = COST_3RD_PARTY_FIXED +
                 real_of_int (distance (sortOrders newOrders ! i)) * COST_3RD_PARTY_PER_KM,
               distance_r = distance (sortOrders newOrders ! i) \<rparr>)"
    by blast
  from g have new: "newOrders = [exampleOrder0, exampleOrder1, exampleOrder2]"
    by (simp add: generateOrders_example)
  then have xs: "sortOrders newOrders = ?xs" by (simp add: sortOrders_example)
  from a0 xs have p0: "0 < availableTrucks (stateBefore 2 ?xs 0)" by simp
  have p2: "\<not> 0 < availableTrucks (stateBefore 2 ?xs 2)"
    by (simp add: available_stateBefore)
  from l new have l3: "length orders = 3" by simp
  from each[rule_format, of 0] new xs p0 o0
  have i0: "orders ! 0 = exampleOrder1\<lparr> status := Assigned \<rparr>"
    "vehicleId (schedule res ! 0) = ''VEH-1''" "cost (schedule res ! 0) = 3270"
    by (simp_all add: showNat_Suc0 exampleOrder1_def COST_OWNED_FIXED_def COST_OWNED_PER_KM_def)
  from each[rule_format, of 2] new xs p2
  have i2: "orders ! 2 = exampleOrder2\<lparr> status := Outsourced \<rparr>"
    "vehicleId (schedule res ! 2) = ''3RD-PARTY''" "cost (schedule res ! 2) = 6060"
    by (simp_all add: exampleOrder2_def COST_3RD_PARTY_FIXED_def COST_3RD_PARTY_PER_KM_def)
  from h p0 p2 r l3 i0 i2 show ?thesis
    by (intro conjI exI[of _ orders] exI[of _ res]) assumption+
qed

text \<open>
  C3. The dispatch sequence is a permutation of the generated list, sorted by \<open>precedes\<close>
  (no normal order before an urgent one; at equal urgency, distance does not increase);
  orders with equal urgency and equal distance keep their generation order; and the
  schedule log and the returned order list follow the sorted sequence, entry by entry
  (order ids are pairwise distinct, so the ids fix the order).
\<close>

theorem dispatch_sequence_sorted:
  assumes "numOrders < 2 ^ 32"
  shows "\<exists>newOrders orders res.
     generateOrders numOrders rnd = Inr newOrders \<and>
     runSimulation numOrders fleetSize rnd = Inr (orders, res) \<and>
     mset (sortOrders newOrders) = mset newOrders \<and>
     sorted_wrt precedes (sortOrders newOrders) \<and>
     (\<forall>u d. filter (\<lambda>z. urgency z = u \<and> distance z = d) (sortOrders newOrders) =
            filter (\<lambda>z. urgency z = u \<and> distance z = d) newOrders) \<and>
     map orderId (schedule res) = map id_o (sortOrders newOrders) \<and>
     map distance_r (schedule res) = map distance (sortOrders newOrders) \<and>
     map id_o orders = map id_o (sortOrders newOrders) \<and>
     distinct (map id_o newOrders)"
proof -
  let ?new = "map (newOrder rnd) [0 ..< nat numOrders]"
  let ?out = "dispatch ?new fleetSize"
  show ?thesis
  proof (intro exI conjI)
    show "generateOrders numOrders rnd = Inr ?new"
      using assms by (rule generateOrders_Inr)
    show "runSimulation numOrders fleetSize rnd = Inr (fst ?out, snd ?out)"
      using assms by (simp add: runSimulation_Inr)
    show "mset (sortOrders ?new) = mset ?new" by (rule mset_sortOrders)
    show "sorted_wrt precedes (sortOrders ?new)" by (rule sorted_sortOrders)
    show "\<forall>u d. filter (\<lambda>z. urgency z = u \<and> distance z = d) (sortOrders ?new) =
            filter (\<lambda>z. urgency z = u \<and> distance z = d) ?new"
      by (intro allI) (rule sortOrders_stable)
    show "map orderId (schedule (snd ?out)) = map id_o (sortOrders ?new)"
      by (rule map_orderId_schedule)
    show "map distance_r (schedule (snd ?out)) = map distance (sortOrders ?new)"
      by (rule map_distance_schedule)
    show "map id_o (fst ?out) = map id_o (sortOrders ?new)"
      by (rule map_id_orders)
    show "distinct (map id_o ?new)"
      using distinct_ids_newOrder[of rnd "nat numOrders"] by simp
  qed
qed

theorem dispatch_sequence_sorted_witness:
  "(3::int) < 2 ^ 32 \<and>
   generateOrders 3 exampleDraws = Inr [exampleOrder0, exampleOrder1, exampleOrder2] \<and>
   sortOrders [exampleOrder0, exampleOrder1, exampleOrder2] =
     [exampleOrder1, exampleOrder0, exampleOrder2] \<and>
   precedes exampleOrder1 exampleOrder0 \<and>
   urgency exampleOrder0 = urgency exampleOrder2 \<and>
   distance exampleOrder2 \<le> distance exampleOrder0 \<and>
   (\<exists>orders res. runSimulation 3 2 exampleDraws = Inr (orders, res) \<and>
      map orderId (schedule res) = [''ORD-1001'', ''ORD-1000'', ''ORD-1002''] \<and>
      map distance_r (schedule res) = [220, 360, 290] \<and>
      map id_o orders = [''ORD-1001'', ''ORD-1000'', ''ORD-1002''])"
proof -
  have h: "(3::int) < 2 ^ 32" by simp
  from dispatch_sequence_sorted[OF h, of exampleDraws 2] obtain newOrders orders res
    where g: "generateOrders 3 exampleDraws = Inr newOrders"
      and r: "runSimulation 3 2 exampleDraws = Inr (orders, res)"
      and sorted: "sorted_wrt precedes (sortOrders newOrders)"
      and log: "map orderId (schedule res) = map id_o (sortOrders newOrders)"
      and km: "map distance_r (schedule res) = map distance (sortOrders newOrders)"
      and ids: "map id_o orders = map id_o (sortOrders newOrders)"
    by blast
  from g have new: "newOrders = [exampleOrder0, exampleOrder1, exampleOrder2]"
    by (simp add: generateOrders_example)
  have g': "generateOrders 3 exampleDraws = Inr [exampleOrder0, exampleOrder1, exampleOrder2]"
    by (rule generateOrders_example)
  have so: "sortOrders [exampleOrder0, exampleOrder1, exampleOrder2] =
     [exampleOrder1, exampleOrder0, exampleOrder2]"
    by (rule sortOrders_example)
  from sorted new so have p: "precedes exampleOrder1 exampleOrder0"
    and q: "precedes exampleOrder0 exampleOrder2"
    by simp_all
  have u: "urgency exampleOrder0 = urgency exampleOrder2"
    by (simp add: exampleOrder0_def exampleOrder2_def)
  from q u have d: "distance exampleOrder2 \<le> distance exampleOrder0"
    by (simp add: precedes_def)
  from log new so have log': "map orderId (schedule res) = [''ORD-1001'', ''ORD-1000'', ''ORD-1002'']"
    by (simp add: exampleOrder0_def exampleOrder1_def exampleOrder2_def)
  from km new so have km': "map distance_r (schedule res) = [220, 360, 290]"
    by (simp add: exampleOrder0_def exampleOrder1_def exampleOrder2_def)
  from ids new so have ids': "map id_o orders = [''ORD-1001'', ''ORD-1000'', ''ORD-1002'']"
    by (simp add: exampleOrder0_def exampleOrder1_def exampleOrder2_def)
  from h g' so p u d r log' km' ids' show ?thesis
    by (intro conjI exI[of _ orders] exI[of _ res]) assumption+
qed

text \<open>
  C4. Boundary runs. With \<open>numOrders = 0\<close> the schedule log is empty and every aggregate
  is zero; with \<open>fleetSize = 0\<close> every order ends \<open>Outsourced\<close> and the owned count is 0;
  with \<open>fleetSize \<ge> numOrders\<close> the outsourced count is 0 and every order ends \<open>Assigned\<close>.
\<close>

theorem boundary_runs:
  assumes "numOrders < 2 ^ 32"
  shows "\<exists>orders res.
     runSimulation numOrders fleetSize rnd = Inr (orders, res) \<and>
     length orders = nat numOrders \<and>
     (numOrders = 0 \<longrightarrow>
        orders = [] \<and> schedule res = [] \<and> totalCost res = 0 \<and> ownedUsage res = 0 \<and>
        outsourcedUsage res = 0 \<and> totalKm res = 0 \<and> manualCostEst res = 0 \<and>
        savings res = 0 \<and> co2 res = 0) \<and>
     (fleetSize = 0 \<longrightarrow>
        (\<forall>a \<in> set orders. status a = Outsourced) \<and> ownedUsage res = 0 \<and>
        outsourcedUsage res = nat numOrders) \<and>
     (numOrders \<le> fleetSize \<longrightarrow>
        outsourcedUsage res = 0 \<and> (\<forall>a \<in> set orders. status a = Assigned))"
proof -
  let ?new = "map (newOrder rnd) [0 ..< nat numOrders]"
  let ?out = "dispatch ?new fleetSize"
  have run: "runSimulation numOrders fleetSize rnd = Inr (fst ?out, snd ?out)"
    using assms by (simp add: runSimulation_Inr)
  have zero: "fst ?out = [] \<and> schedule (snd ?out) = [] \<and> totalCost (snd ?out) = 0 \<and>
        ownedUsage (snd ?out) = 0 \<and> outsourcedUsage (snd ?out) = 0 \<and> totalKm (snd ?out) = 0 \<and>
        manualCostEst (snd ?out) = 0 \<and> savings (snd ?out) = 0 \<and> co2 (snd ?out) = 0"
    if "numOrders = 0"
    using that by (simp add: dispatch_Nil)
  have nofleet: "(\<forall>a \<in> set (fst ?out). status a = Outsourced) \<and> ownedUsage (snd ?out) = 0 \<and>
        outsourcedUsage (snd ?out) = nat numOrders"
    if f: "fleetSize = 0"
  proof -
    have "status a = Outsourced" if "a \<in> set (fst ?out)" for a
      using status_orders_dispatch[OF that] f by auto
    then show ?thesis
      using f by (simp add: ownedUsage_dispatch outsourcedUsage_dispatch)
  qed
  have enough: "outsourcedUsage (snd ?out) = 0 \<and> (\<forall>a \<in> set (fst ?out). status a = Assigned)"
    if f: "numOrders \<le> fleetSize"
  proof -
    have "status a = Assigned" if "a \<in> set (fst ?out)" for a
    proof -
      from status_orders_dispatch[OF that] obtain i
        where i: "i < nat numOrders" and s: "status a = (if int i < fleetSize then Assigned else Outsourced)"
        by auto
      from i f have "int i < fleetSize" by linarith
      with s show ?thesis by simp
    qed
    moreover from f have "nat numOrders \<le> nat fleetSize" by linarith
    ultimately show ?thesis
      by (simp add: outsourcedUsage_dispatch)
  qed
  have len: "length (fst ?out) = nat numOrders"
    by (simp add: length_orders_dispatch)
  from run len zero nofleet enough show ?thesis by blast
qed

theorem boundary_runs_witness:
  "(0::int) < 2 ^ 32 \<and> (3::int) < 2 ^ 32 \<and> (3::int) \<le> 5 \<and>
   (\<exists>orders res. runSimulation 0 2 exampleDraws = Inr (orders, res) \<and>
      schedule res = [] \<and> totalCost res = 0 \<and> totalKm res = 0 \<and> co2 res = 0) \<and>
   (\<exists>orders res. runSimulation 3 0 exampleDraws = Inr (orders, res) \<and>
      length orders = 3 \<and> status (orders ! 0) = Outsourced \<and> status (orders ! 2) = Outsourced \<and>
      ownedUsage res = 0 \<and> outsourcedUsage res = 3) \<and>
   (\<exists>orders res. runSimulation 3 5 exampleDraws = Inr (orders, res) \<and>
      length orders = 3 \<and> status (orders ! 0) = Assigned \<and> status (orders ! 2) = Assigned \<and>
      outsourcedUsage res = 0)"
proof -
  have h0: "(0::int) < 2 ^ 32" and h3: "(3::int) < 2 ^ 32" and h5: "(3::int) \<le> 5" by simp_all
  from boundary_runs[OF h0, of 2 exampleDraws]
  have a: "\<exists>orders res. runSimulation 0 2 exampleDraws = Inr (orders, res) \<and>
      schedule res = [] \<and> totalCost res = 0 \<and> totalKm res = 0 \<and> co2 res = 0"
    by auto
  from boundary_runs[OF h3, of 0 exampleDraws]
  obtain orders res where r: "runSimulation 3 0 exampleDraws = Inr (orders, res)"
    and l: "length orders = 3"
    and s: "\<forall>a \<in> set orders. status a = Outsourced"
    and u: "ownedUsage res = 0" "outsourcedUsage res = 3"
    by auto
  from l s have "status (orders ! 0) = Outsourced" "status (orders ! 2) = Outsourced" by simp_all
  with r l u have b: "\<exists>orders res. runSimulation 3 0 exampleDraws = Inr (orders, res) \<and>
      length orders = 3 \<and> status (orders ! 0) = Outsourced \<and> status (orders ! 2) = Outsourced \<and>
      ownedUsage res = 0 \<and> outsourcedUsage res = 3"
    by (intro conjI exI[of _ orders] exI[of _ res]) assumption+
  from boundary_runs[OF h3, of 5 exampleDraws]
  obtain orders' res' where r': "runSimulation 3 5 exampleDraws = Inr (orders', res')"
    and l': "length orders' = 3"
    and s': "\<forall>a \<in> set orders'. status a = Assigned"
    and u': "outsourcedUsage res' = 0"
    by auto
  from l' s' have "status (orders' ! 0) = Assigned" "status (orders' ! 2) = Assigned" by simp_all
  with r' l' u' have c: "\<exists>orders res. runSimulation 3 5 exampleDraws = Inr (orders, res) \<and>
      length orders = 3 \<and> status (orders ! 0) = Assigned \<and> status (orders ! 2) = Assigned \<and>
      outsourcedUsage res = 0"
    by (intro conjI exI[of _ orders'] exI[of _ res']) assumption+
  from h0 h3 h5 a b c show ?thesis by (intro conjI) assumption+
qed

text \<open>
  C5. The reported aggregates are the sums over the schedule log: \<open>totalCost\<close> is the sum
  of the entries' costs, \<open>totalKm\<close> the sum of their distances, and \<open>co2\<close> is
  \<open>totalKm * CO2_PER_KM\<close>.
\<close>

theorem aggregates_are_sums:
  assumes "numOrders < 2 ^ 32"
  shows "\<exists>orders res.
     runSimulation numOrders fleetSize rnd = Inr (orders, res) \<and>
     totalCost res = sum_list (map cost (schedule res)) \<and>
     totalKm res = sum_list (map distance_r (schedule res)) \<and>
     co2 res = real_of_int (totalKm res) * CO2_PER_KM"
proof -
  let ?new = "map (newOrder rnd) [0 ..< nat numOrders]"
  let ?out = "dispatch ?new fleetSize"
  have run: "runSimulation numOrders fleetSize rnd = Inr (fst ?out, snd ?out)"
    using assms by (simp add: runSimulation_Inr)
  have c: "totalCost (snd ?out) = sum_list (map cost (schedule (snd ?out)))"
    by (rule totalCost_dispatch)
  have k: "totalKm (snd ?out) = sum_list (map distance_r (schedule (snd ?out)))"
    by (simp only: totalKm_dispatch map_distance_schedule)
  have e: "co2 (snd ?out) = real_of_int (totalKm (snd ?out)) * CO2_PER_KM"
    by (simp add: snd_dispatch metrics_def)
  from run c k e show ?thesis by blast
qed

theorem aggregates_are_sums_witness:
  "(3::int) < 2 ^ 32 \<and>
   (\<exists>orders res. runSimulation 3 2 exampleDraws = Inr (orders, res) \<and>
      map cost (schedule res) = [3270, 5160, 6060] \<and> totalCost res = 3270 + 5160 + 6060 \<and>
      map distance_r (schedule res) = [220, 360, 290] \<and> totalKm res = 220 + 360 + 290 \<and>
      co2 res = 870 * CO2_PER_KM)"
proof -
  have h: "(3::int) < 2 ^ 32" by simp
  from aggregates_are_sums[OF h, of 2 exampleDraws] obtain orders res
    where r: "runSimulation 3 2 exampleDraws = Inr (orders, res)"
      and c: "totalCost res = sum_list (map cost (schedule res))"
      and k: "totalKm res = sum_list (map distance_r (schedule res))"
      and e: "co2 res = real_of_int (totalKm res) * CO2_PER_KM"
    by blast
  from r have s: "schedule res = schedule (snd (dispatch [exampleOrder0, exampleOrder1, exampleOrder2] 2))"
    by (simp add: runSimulation_example)
  then have mc: "map cost (schedule res) = [3270, 5160, 6060]"
    and md: "map distance_r (schedule res) = [220, 360, 290]"
    by (simp_all add: dispatch_example2)
  from c mc have tc: "totalCost res = 3270 + 5160 + 6060" by simp
  from k md have tk: "totalKm res = 220 + 360 + 290" by simp
  from e tk have e': "co2 res = 870 * CO2_PER_KM" by simp
  from h r mc tc md tk e' show ?thesis
    by (intro conjI exI[of _ orders] exI[of _ res]) assumption+
qed

text \<open>
  C6. \<open>manualCostEst\<close> is \<open>totalCost\<close> times the factor of the code, 1.153 (which is
  above 1); \<open>savings\<close> is \<open>manualCostEst - totalCost\<close>; every entry's cost is
  non-negative, and so are \<open>totalCost\<close> and \<open>savings\<close>.
\<close>

theorem savings_nonneg:
  assumes "numOrders < 2 ^ 32"
  shows "\<exists>orders res.
     runSimulation numOrders fleetSize rnd = Inr (orders, res) \<and>
     manualCostEst res = totalCost res * 1.153 \<and>
     savings res = manualCostEst res - totalCost res \<and>
     (\<forall>r \<in> set (schedule res). 0 \<le> cost r) \<and>
     0 \<le> totalCost res \<and>
     0 \<le> savings res"
proof -
  let ?new = "map (newOrder rnd) [0 ..< nat numOrders]"
  let ?out = "dispatch ?new fleetSize"
  have run: "runSimulation numOrders fleetSize rnd = Inr (fst ?out, snd ?out)"
    using assms by (simp add: runSimulation_Inr)
  have m: "manualCostEst (snd ?out) = totalCost (snd ?out) * 1.153"
    by (simp add: snd_dispatch metrics_def)
  have s: "savings (snd ?out) = manualCostEst (snd ?out) - totalCost (snd ?out)"
    by (simp add: snd_dispatch metrics_def)
  have d: "\<forall>a \<in> set ?new. 0 \<le> distance a"
    using distance_newOrder[of rnd] by (auto intro: order_trans[of 0 50])
  have c: "\<forall>r \<in> set (schedule (snd ?out)). 0 \<le> cost r"
    using cost_schedule_nonneg[OF d] by blast
  have t: "0 \<le> totalCost (snd ?out)"
    unfolding totalCost_dispatch[of ?new fleetSize] using c by (intro sum_list_nonneg) auto
  have "0 \<le> savings (snd ?out)"
    using t by (simp add: s m)
  with run m s c t show ?thesis by blast
qed

theorem savings_nonneg_witness:
  "(3::int) < 2 ^ 32 \<and>
   (\<exists>orders res. runSimulation 3 2 exampleDraws = Inr (orders, res) \<and>
      totalCost res = 14490 \<and> manualCostEst res = 16706.97 \<and> savings res = 2216.97 \<and>
      0 \<le> savings res)"
proof -
  have h: "(3::int) < 2 ^ 32" by simp
  from savings_nonneg[OF h, of 2 exampleDraws] obtain orders res
    where r: "runSimulation 3 2 exampleDraws = Inr (orders, res)"
      and m: "manualCostEst res = totalCost res * 1.153"
      and s: "savings res = manualCostEst res - totalCost res"
      and n: "0 \<le> savings res"
    by blast
  from r have "res = snd (dispatch [exampleOrder0, exampleOrder1, exampleOrder2] 2)"
    by (simp add: runSimulation_example)
  then have t: "totalCost res = 14490"
    by (simp add: dispatch_example2)
  from m t have m': "manualCostEst res = 16706.97" by simp
  from s m' t have s': "savings res = 2216.97" by simp
  from h r t m' s' n show ?thesis
    by (intro conjI exI[of _ orders] exI[of _ res]) assumption+
qed

text \<open>
  C7. The claim is that a negative order count or a negative fleet size is rejected with
  a validation error before any allocation. \<open>runSimulation\<close> has no validation: with
  \<open>numOrders = - 2\<close> it returns a result, and with \<open>numOrders = 3\<close>, \<open>fleetSize = - 1\<close> it
  returns a result in which all three orders have been allocated to the third party.

  As amended: a negative order count or a negative fleet size raises no error and the run
  completes. A negative order count is a run of no orders (empty order list, empty
  schedule log, all aggregates zero); with a negative fleet size no order gets an owned
  vehicle and every order is outsourced.
\<close>

theorem negative_inputs_accepted:
  assumes "numOrders < 0 \<or> fleetSize < 0" and "numOrders < 2 ^ 32"
  shows "\<exists>orders res.
     runSimulation numOrders fleetSize rnd = Inr (orders, res) \<and>
     (numOrders < 0 \<longrightarrow>
        orders = [] \<and> schedule res = [] \<and> totalCost res = 0 \<and> ownedUsage res = 0 \<and>
        outsourcedUsage res = 0 \<and> totalKm res = 0 \<and> manualCostEst res = 0 \<and>
        savings res = 0 \<and> co2 res = 0) \<and>
     (fleetSize < 0 \<longrightarrow>
        ownedUsage res = 0 \<and> outsourcedUsage res = nat numOrders \<and>
        length orders = nat numOrders \<and> (\<forall>a \<in> set orders. status a = Outsourced))"
proof -
  let ?new = "map (newOrder rnd) [0 ..< nat numOrders]"
  let ?out = "dispatch ?new fleetSize"
  have run: "runSimulation numOrders fleetSize rnd = Inr (fst ?out, snd ?out)"
    using assms(2) by (simp add: runSimulation_Inr)
  have zero: "fst ?out = [] \<and> schedule (snd ?out) = [] \<and> totalCost (snd ?out) = 0 \<and>
        ownedUsage (snd ?out) = 0 \<and> outsourcedUsage (snd ?out) = 0 \<and> totalKm (snd ?out) = 0 \<and>
        manualCostEst (snd ?out) = 0 \<and> savings (snd ?out) = 0 \<and> co2 (snd ?out) = 0"
    if "numOrders < 0"
    using that by (simp add: dispatch_Nil)
  have nofleet: "ownedUsage (snd ?out) = 0 \<and> outsourcedUsage (snd ?out) = nat numOrders \<and>
        length (fst ?out) = nat numOrders \<and> (\<forall>a \<in> set (fst ?out). status a = Outsourced)"
    if f: "fleetSize < 0"
  proof -
    have "status a = Outsourced" if "a \<in> set (fst ?out)" for a
      using status_orders_dispatch[OF that] f by auto
    then show ?thesis
      using f by (simp add: ownedUsage_dispatch outsourcedUsage_dispatch length_orders_dispatch)
  qed
  from run zero nofleet show ?thesis by blast
qed

theorem negative_inputs_accepted_witness:
  "((- 2 ::int) < 0 \<or> (2::int) < 0) \<and> (- 2 ::int) < 2 ^ 32 \<and>
   (\<exists>orders res. runSimulation (- 2) 2 exampleDraws = Inr (orders, res) \<and>
      orders = [] \<and> schedule res = [] \<and> totalCost res = 0) \<and>
   (\<exists>orders res. runSimulation 3 (- 1) exampleDraws = Inr (orders, res) \<and>
      length orders = 3 \<and> status (orders ! 0) = Outsourced \<and>
      ownedUsage res = 0 \<and> outsourcedUsage res = 3)"
proof -
  have h1: "(- 2 ::int) < 0 \<or> (2::int) < 0" and h2: "(- 2 ::int) < 2 ^ 32" by simp_all
  have h3: "(3::int) < 0 \<or> (- 1 ::int) < 0" and h4: "(3 ::int) < 2 ^ 32" by simp_all
  from negative_inputs_accepted[OF h1 h2, of exampleDraws]
  have a: "\<exists>orders res. runSimulation (- 2) 2 exampleDraws = Inr (orders, res) \<and>
      orders = [] \<and> schedule res = [] \<and> totalCost res = 0"
    by auto
  from negative_inputs_accepted[OF h3 h4, of exampleDraws]
  obtain orders res where r: "runSimulation 3 (- 1) exampleDraws = Inr (orders, res)"
    and o: "ownedUsage res = 0" "outsourcedUsage res = 3" "length orders = 3"
    and s: "\<forall>a \<in> set orders. status a = Outsourced"
    by auto
  from o(3) s have "status (orders ! 0) = Outsourced" by simp
  with r o have b: "\<exists>orders res. runSimulation 3 (- 1) exampleDraws = Inr (orders, res) \<and>
      length orders = 3 \<and> status (orders ! 0) = Outsourced \<and>
      ownedUsage res = 0 \<and> outsourcedUsage res = 3"
    by blast
  from h1 h2 a b show ?thesis by blast
qed

theorem negative_inputs_counterexample:
  "\<not> isl (runSimulation (- 2) 2 exampleDraws) \<and>
   \<not> isl (runSimulation 3 (- 1) exampleDraws) \<and>
   map status (fst (projr (runSimulation 3 (- 1) exampleDraws))) =
     [Outsourced, Outsourced, Outsourced]"
proof -
  have a: "runSimulation (- 2) 2 exampleDraws = Inr (dispatch [] 2)"
    by (simp add: runSimulation_Inr)
  have b: "runSimulation 3 (- 1) exampleDraws =
      Inr (dispatch [exampleOrder0, exampleOrder1, exampleOrder2] (- 1))"
    by (simp add: runSimulation_def generateOrders_example)
  have c: "map status (fst (dispatch [exampleOrder0, exampleOrder1, exampleOrder2] (- 1))) =
      [Outsourced, Outsourced, Outsourced]"
    by (simp add: fst_dispatch sortOrders_example allocate_example_neg del: allocate.simps)
  from a b c show ?thesis by simp
qed

text \<open>
  C8. With no orders (\<open>numOrders \<le> 0\<close>) the run returns the empty order list and the
  result with an empty schedule log and \<open>totalCost\<close>, \<open>totalKm\<close>, \<open>co2\<close>, \<open>manualCostEst\<close>,
  \<open>savings\<close> and both counts exactly 0. The function divides nowhere.
\<close>

theorem zero_orders_all_zero:
  assumes "numOrders \<le> 0"
  shows "runSimulation numOrders fleetSize rnd =
     Inr ([], \<lparr> schedule = [], totalCost = 0, ownedUsage = 0, outsourcedUsage = 0,
                totalKm = 0, manualCostEst = 0, savings = 0, co2 = 0 \<rparr>)"
proof -
  from assms have "numOrders < 2 ^ 32" by (rule le_less_trans) simp
  with assms show ?thesis by (simp add: runSimulation_Inr dispatch_Nil)
qed

theorem zero_orders_all_zero_witness:
  "(0::int) \<le> 0 \<and>
   runSimulation 0 30 exampleDraws =
     Inr ([], \<lparr> schedule = [], totalCost = 0, ownedUsage = 0, outsourcedUsage = 0,
                totalKm = 0, manualCostEst = 0, savings = 0, co2 = 0 \<rparr>)"
  using zero_orders_all_zero [of 0 30 exampleDraws] by simp

text \<open>
  C9. For \<open>numOrders < 2^32\<close> the generator of \<^verbatim>\<open>src/index.tsx\<close> returns a list, whatever
  the draws: of exactly \<open>numOrders\<close> orders when \<open>numOrders\<close> is positive, empty when
  \<open>numOrders \<le> 0\<close>, each order \<open>Pending\<close> and at a distance of at least the offset 50,
  hence non-negative.
\<close>

theorem generator_contract:
  assumes "numOrders < 2 ^ 32"
  shows "\<exists>newOrders.
     generateOrders numOrders rnd = Inr newOrders \<and>
     (0 < numOrders \<longrightarrow> int (length newOrders) = numOrders) \<and>
     (numOrders \<le> 0 \<longrightarrow> newOrders = []) \<and>
     (\<forall>a \<in> set newOrders. status a = Pending \<and> 50 \<le> distance a \<and> 0 \<le> distance a)"
proof -
  let ?new = "map (newOrder rnd) [0 ..< nat numOrders]"
  have gen: "generateOrders numOrders rnd = Inr ?new"
    using assms by (rule generateOrders_Inr)
  have len: "0 < numOrders \<longrightarrow> int (length ?new) = numOrders" by simp
  have emp: "numOrders \<le> 0 \<longrightarrow> ?new = []" by simp
  have each: "\<forall>a \<in> set ?new. status a = Pending \<and> 50 \<le> distance a \<and> 0 \<le> distance a"
    using distance_newOrder[of rnd] by (auto simp: status_newOrder intro: order_trans[of 0 50])
  from gen len emp each show ?thesis by blast
qed

theorem generator_contract_witness:
  "(3::int) < 2 ^ 32 \<and> (0::int) < 3 \<and>
   generateOrders 3 exampleDraws = Inr [exampleOrder0, exampleOrder1, exampleOrder2] \<and>
   map status [exampleOrder0, exampleOrder1, exampleOrder2] = [Pending, Pending, Pending] \<and>
   map distance [exampleOrder0, exampleOrder1, exampleOrder2] = [360, 220, 290] \<and>
   (- 1 ::int) \<le> 0 \<and> generateOrders (- 1) exampleDraws = Inr []"
proof -
  have h: "(3::int) < 2 ^ 32" and h': "(- 1 ::int) < 2 ^ 32" by simp_all
  from generator_contract[OF h, of exampleDraws] obtain newOrders
    where g: "generateOrders 3 exampleDraws = Inr newOrders"
      and len: "int (length newOrders) = 3"
      and each: "\<forall>a \<in> set newOrders. status a = Pending \<and> 50 \<le> distance a \<and> 0 \<le> distance a"
    by auto
  from g have new: "newOrders = [exampleOrder0, exampleOrder1, exampleOrder2]"
    by (simp add: generateOrders_example)
  from each new have st: "map status [exampleOrder0, exampleOrder1, exampleOrder2] = [Pending, Pending, Pending]"
    by simp
  have d: "map distance [exampleOrder0, exampleOrder1, exampleOrder2] = [360, 220, 290]"
    by (simp add: exampleOrder0_def exampleOrder1_def exampleOrder2_def)
  from generator_contract[OF h', of exampleDraws]
  have e: "generateOrders (- 1) exampleDraws = Inr []" by auto
  from g new st d e show ?thesis by simp
qed

text \<open>
  C10. In both copies of \<open>runSimulation\<close>, with a non-negative fleet size, the owned count
  is \<open>min fleetSize numOrders\<close>. The orders at the positions of the dispatch sequence below
  it are returned \<open>Assigned\<close>, with the labels \<open>VEH-1\<close>, \<open>VEH-2\<close>, \dots in sequence,
  pairwise distinct; every later order is returned \<open>Outsourced\<close>, with the label
  \<open>3RD-PARTY\<close>.
\<close>

theorem greedy_prefix:
  assumes "numOrders < 2 ^ 32" and "0 \<le> fleetSize"
  shows "\<forall>(generate, run) \<in> {(generateOrders, runSimulation),
                               (generateOrders_dashboard, runSimulation_dashboard)}.
     \<exists>newOrders orders res.
       generate numOrders rnd = Inr newOrders \<and>
       run numOrders fleetSize rnd = Inr (orders, res) \<and>
       length newOrders = nat numOrders \<and>
       length orders = nat numOrders \<and>
       length (schedule res) = nat numOrders \<and>
       ownedUsage res = min (nat fleetSize) (nat numOrders) \<and>
       (\<forall>i < nat numOrders.
          orderId (schedule res ! i) = id_o (sortOrders newOrders ! i) \<and>
          (if i < ownedUsage res then
             orders ! i = (sortOrders newOrders ! i)\<lparr> status := Assigned \<rparr> \<and>
             method_r (schedule res ! i) = ''Owned'' \<and>
             vehicleId (schedule res ! i) = ''VEH-'' @ showNat (i + 1)
           else
             orders ! i = (sortOrders newOrders ! i)\<lparr> status := Outsourced \<rparr> \<and>
             method_r (schedule res ! i) = ''Outsourced'' \<and>
             vehicleId (schedule res ! i) = ''3RD-PARTY'')) \<and>
       distinct (map vehicleId (take (ownedUsage res) (schedule res)))"
proof -
  let ?new = "map (newOrder rnd) [0 ..< nat numOrders]"
  let ?new' = "map (newOrder_dashboard rnd) [0 ..< nat numOrders]"
  have gen: "generateOrders numOrders rnd = Inr ?new"
    using assms(1) by (rule generateOrders_Inr)
  have gen': "generateOrders_dashboard numOrders rnd = Inr ?new'"
    using assms(1) by (rule generateOrders_dashboard_Inr)
  have run: "runSimulation numOrders fleetSize rnd =
      Inr (fst (dispatch ?new fleetSize), snd (dispatch ?new fleetSize))"
    using assms(1) by (simp add: runSimulation_Inr)
  have run': "runSimulation_dashboard numOrders fleetSize rnd =
      Inr (fst (dispatch ?new' fleetSize), snd (dispatch ?new' fleetSize))"
    using assms(1) by (simp add: runSimulation_dashboard_Inr)
  have n: "length ?new = nat numOrders" "length ?new' = nat numOrders" by simp_all
  note g = dispatch_greedy[OF assms(2), of ?new, unfolded n(1)]
  note g' = dispatch_greedy[OF assms(2), of ?new', unfolded n(2)]
  have a: "\<exists>newOrders orders res.
       generateOrders numOrders rnd = Inr newOrders \<and>
       runSimulation numOrders fleetSize rnd = Inr (orders, res) \<and>
       length newOrders = nat numOrders \<and>
       length orders = nat numOrders \<and>
       length (schedule res) = nat numOrders \<and>
       ownedUsage res = min (nat fleetSize) (nat numOrders) \<and>
       (\<forall>i < nat numOrders.
          orderId (schedule res ! i) = id_o (sortOrders newOrders ! i) \<and>
          (if i < ownedUsage res then
             orders ! i = (sortOrders newOrders ! i)\<lparr> status := Assigned \<rparr> \<and>
             method_r (schedule res ! i) = ''Owned'' \<and>
             vehicleId (schedule res ! i) = ''VEH-'' @ showNat (i + 1)
           else
             orders ! i = (sortOrders newOrders ! i)\<lparr> status := Outsourced \<rparr> \<and>
             method_r (schedule res ! i) = ''Outsourced'' \<and>
             vehicleId (schedule res ! i) = ''3RD-PARTY'')) \<and>
       distinct (map vehicleId (take (ownedUsage res) (schedule res)))"
    by (rule exI[of _ ?new], rule exI[of _ "fst (dispatch ?new fleetSize)"],
        rule exI[of _ "snd (dispatch ?new fleetSize)"],
        rule conjI, rule gen, rule conjI, rule run, rule conjI, rule n(1), rule g)
  have b: "\<exists>newOrders orders res.
       generateOrders_dashboard numOrders rnd = Inr newOrders \<and>
       runSimulation_dashboard numOrders fleetSize rnd = Inr (orders, res) \<and>
       length newOrders = nat numOrders \<and>
       length orders = nat numOrders \<and>
       length (schedule res) = nat numOrders \<and>
       ownedUsage res = min (nat fleetSize) (nat numOrders) \<and>
       (\<forall>i < nat numOrders.
          orderId (schedule res ! i) = id_o (sortOrders newOrders ! i) \<and>
          (if i < ownedUsage res then
             orders ! i = (sortOrders newOrders ! i)\<lparr> status := Assigned \<rparr> \<and>
             method_r (schedule res ! i) = ''Owned'' \<and>
             vehicleId (schedule res ! i) = ''VEH-'' @ showNat (i + 1)
           else
             orders ! i = (sortOrders newOrders ! i)\<lparr> status := Outsourced \<rparr> \<and>
             method_r (schedule res ! i) = ''Outsourced'' \<and>
             vehicleId (schedule res ! i) = ''3RD-PARTY'')) \<and>
       distinct (map vehicleId (take (ownedUsage res) (schedule res)))"
    by (rule exI[of _ ?new'], rule exI[of _ "fst (dispatch ?new' fleetSize)"],
        rule exI[of _ "snd (dispatch ?new' fleetSize)"],
        rule conjI, rule gen', rule conjI, rule run', rule conjI, rule n(2), rule g')
  from a b show ?thesis by simp
qed

theorem greedy_prefix_witness:
  "(3::int) < 2 ^ 32 \<and> (0::int) \<le> 2 \<and>
   (\<exists>orders res. runSimulation 3 2 exampleDraws = Inr (orders, res) \<and>
      ownedUsage res = 2 \<and>
      orders ! 0 = exampleOrder1\<lparr> status := Assigned \<rparr> \<and>
      vehicleId (schedule res ! 0) = ''VEH-1'' \<and>
      orders ! 1 = exampleOrder0\<lparr> status := Assigned \<rparr> \<and>
      vehicleId (schedule res ! 1) = ''VEH-2'' \<and>
      orders ! 2 = exampleOrder2\<lparr> status := Outsourced \<rparr> \<and>
      vehicleId (schedule res ! 2) = ''3RD-PARTY'') \<and>
   (\<exists>orders res. runSimulation_dashboard 3 2 exampleDraws = Inr (orders, res) \<and>
      length orders = 3 \<and> ownedUsage res = 2 \<and>
      status (orders ! 0) = Assigned \<and> vehicleId (schedule res ! 0) = ''VEH-1'' \<and>
      status (orders ! 1) = Assigned \<and> vehicleId (schedule res ! 1) = ''VEH-2'' \<and>
      status (orders ! 2) = Outsourced \<and> vehicleId (schedule res ! 2) = ''3RD-PARTY'')"
proof -
  have h: "(3::int) < 2 ^ 32" and f: "(0::int) \<le> 2" by simp_all
  note g = greedy_prefix[OF h f, of exampleDraws]
  have *: "\<exists>newOrders orders res.
      generate 3 exampleDraws = Inr newOrders \<and>
      run 3 2 exampleDraws = Inr (orders, res) \<and>
      length orders = 3 \<and> ownedUsage res = 2 \<and>
      orders ! 0 = (sortOrders newOrders ! 0)\<lparr> status := Assigned \<rparr> \<and>
      vehicleId (schedule res ! 0) = ''VEH-1'' \<and>
      orders ! 1 = (sortOrders newOrders ! 1)\<lparr> status := Assigned \<rparr> \<and>
      vehicleId (schedule res ! 1) = ''VEH-2'' \<and>
      orders ! 2 = (sortOrders newOrders ! 2)\<lparr> status := Outsourced \<rparr> \<and>
      vehicleId (schedule res ! 2) = ''3RD-PARTY''"
    if "(generate, run) \<in> {(generateOrders, runSimulation),
                             (generateOrders_dashboard, runSimulation_dashboard)}"
    for generate run
  proof -
    from bspec[OF g that] obtain newOrders orders res
      where gn: "generate 3 exampleDraws = Inr newOrders"
        and r: "run 3 2 exampleDraws = Inr (orders, res)"
        and l: "length orders = nat 3"
        and u: "ownedUsage res = min (nat 2) (nat 3)"
        and each: "\<forall>i < nat 3.
          orderId (schedule res ! i) = id_o (sortOrders newOrders ! i) \<and>
          (if i < ownedUsage res then
             orders ! i = (sortOrders newOrders ! i)\<lparr> status := Assigned \<rparr> \<and>
             method_r (schedule res ! i) = ''Owned'' \<and>
             vehicleId (schedule res ! i) = ''VEH-'' @ showNat (i + 1)
           else
             orders ! i = (sortOrders newOrders ! i)\<lparr> status := Outsourced \<rparr> \<and>
             method_r (schedule res ! i) = ''Outsourced'' \<and>
             vehicleId (schedule res ! i) = ''3RD-PARTY'')"
      by auto
    from l have l': "length orders = 3" by simp
    from u have u': "ownedUsage res = 2" by simp
    from each[rule_format, of 0] u'
    have a: "orders ! 0 = (sortOrders newOrders ! 0)\<lparr> status := Assigned \<rparr>"
      "vehicleId (schedule res ! 0) = ''VEH-1''"
      by (simp_all add: showNat_Suc0)
    from each[rule_format, of 1] u'
    have b: "orders ! 1 = (sortOrders newOrders ! 1)\<lparr> status := Assigned \<rparr>"
      "vehicleId (schedule res ! 1) = ''VEH-2''"
      by (simp_all add: showNat_Suc1)
    from each[rule_format, of 2] u'
    have c: "orders ! 2 = (sortOrders newOrders ! 2)\<lparr> status := Outsourced \<rparr>"
      "vehicleId (schedule res ! 2) = ''3RD-PARTY''"
      by simp_all
    from gn r l' u' a b c show ?thesis
      by (intro conjI exI[of _ newOrders] exI[of _ orders] exI[of _ res]) assumption+
  qed
  have one: "\<exists>orders res. runSimulation 3 2 exampleDraws = Inr (orders, res) \<and>
      ownedUsage res = 2 \<and>
      orders ! 0 = exampleOrder1\<lparr> status := Assigned \<rparr> \<and>
      vehicleId (schedule res ! 0) = ''VEH-1'' \<and>
      orders ! 1 = exampleOrder0\<lparr> status := Assigned \<rparr> \<and>
      vehicleId (schedule res ! 1) = ''VEH-2'' \<and>
      orders ! 2 = exampleOrder2\<lparr> status := Outsourced \<rparr> \<and>
      vehicleId (schedule res ! 2) = ''3RD-PARTY''"
    using *[of generateOrders runSimulation]
    by (auto simp: generateOrders_example sortOrders_example)
  have two: "\<exists>orders res. runSimulation_dashboard 3 2 exampleDraws = Inr (orders, res) \<and>
      length orders = 3 \<and> ownedUsage res = 2 \<and>
      status (orders ! 0) = Assigned \<and> vehicleId (schedule res ! 0) = ''VEH-1'' \<and>
      status (orders ! 1) = Assigned \<and> vehicleId (schedule res ! 1) = ''VEH-2'' \<and>
      status (orders ! 2) = Outsourced \<and> vehicleId (schedule res ! 2) = ''3RD-PARTY''"
    using *[of generateOrders_dashboard runSimulation_dashboard]
    by auto
  from h f one two show ?thesis by (intro conjI) assumption+
qed


end
